theory Spec2Isabelle
  imports Main "HOL-Library.Word" "HOL-Library.AList"
begin

text \<open>
  The rule engine of the Atakama key server, \<open>atakama/rule_engine.py\<close>: the request
  model, the rule plugins, the evaluation of a request by rule sets (all rules must
  approve), rule trees (one rule set must approve) and the engine (one tree for each
  request type), the generator of rule identifiers, and building an engine from a policy
  and saving it again. Each function of the source is a function here, under its own
  name; what a method changes in place (the state of the plugins and of the logger, the
  generator, the entries of the policy) is passed in and returned, also when the method
  raises. The functions that build an engine come twice: on entries taken as values,
  and, for what a build does to the dict objects of a policy, on a store of dict
  objects.
\<close>

section \<open>The request model (rule_engine.py, lines 22-57)\<close>

datatype RequestType =
    DECRYPT
  | SEARCH
  | CREATE_PROFILE
  | ACTIVATE_LOCATION
  | CREATE_LOCATION
  | RENAME_FILE
  | SECURE_EXPORT

type_synonym bytes = "8 word list"

record ProfileInfo =
  profile_id :: bytes
  profile_words :: "string list"

record MetaInfo =
  meta :: string
  complete :: bool

record ApprovalRequest =
  request_type :: RequestType
  device_id :: bytes
  profile :: ProfileInfo
  auth_meta :: "MetaInfo list"

section \<open>Values of a policy file\<close>

text \<open>
  A rule entry is a Python dict with string keys. Its values are \<open>None\<close>, booleans,
  integers, strings, lists, dicts with string keys, and any other object (a date,
  bytes, a set: what YAML reads besides them), which is given by its truth value,
  whether it can be hashed, the name of its type and its \<open>repr\<close>. Numbers other
  than integers are left out.
  \<open>truthy\<close> is Python's truth value (what \<open>not v\<close> negates), \<open>hashable\<close> says
  whether the value can be a dict key.

  An entry is a value here, which is what the code computes when the entries of a
  policy are separate dict objects, none of them listed twice and none part of the
  value of another (as a YAML alias would make them). The dict objects themselves, with
  such sharing, are in the section on building in place.
\<close>

datatype pyval =
    PNone
  | PBool bool
  | PInt int
  | PStr string
  | PList "pyval list"
  | PDict "(string \<times> pyval) list"
  | PObject bool bool string string

fun truthy :: "pyval \<Rightarrow> bool" where
  "truthy PNone = False"
| "truthy (PBool b) = b"
| "truthy (PInt i) = (i \<noteq> 0)"
| "truthy (PStr s) = (s \<noteq> [])"
| "truthy (PList xs) = (xs \<noteq> [])"
| "truthy (PDict kvs) = (kvs \<noteq> [])"
| "truthy (PObject t h ty r) = t"

fun hashable :: "pyval \<Rightarrow> bool" where
  "hashable (PList xs) = False"
| "hashable (PDict kvs) = False"
| "hashable (PObject t h ty r) = h"
| "hashable v = True"

text \<open>
  Python compares dict keys with \<open>==\<close>, under which \<open>True\<close> is \<open>1\<close> and
  \<open>False\<close> is \<open>0\<close>: \<open>dict_key\<close> maps a hashable value to the key it is stored under.
\<close>

fun dict_key :: "pyval \<Rightarrow> pyval" where
  "dict_key (PBool b) = PInt (if b then 1 else 0)"
| "dict_key v = v"

type_synonym entry = "string \<rightharpoonup> pyval"

text \<open>\<open>ent.get(k)\<close>: the value under the key, \<open>None\<close> when the key is absent.\<close>

definition dict_get :: "entry \<Rightarrow> string \<Rightarrow> pyval" where
  "dict_get ent k = (case ent k of None \<Rightarrow> PNone | Some v \<Rightarrow> v)"

section \<open>Exceptions and verdicts\<close>

text \<open>
  What leaves a call that raises, with the name of its class. \<open>except Exception\<close>
  catches the instances of \<open>Exception\<close> and of its subclasses; \<open>KeyboardInterrupt\<close>,
  \<open>SystemExit\<close> and \<open>GeneratorExit\<close> derive from \<open>BaseException\<close> only and pass
  through it.
\<close>

datatype exc =
    Exception string
  | BaseException string

text \<open>
  \<open>repr(ex)\<close> runs the \<open>__repr__\<close> of the exception and of its arguments, which is
  code of the plugin: on the state of the plugins it returns a string or raises.
\<close>

type_synonym 'w repr = "'w \<Rightarrow> (exc + string) \<times> 'w"

text \<open>
  The outcome of one call of a rule's \<open>approve_request\<close>: it returns an
  \<open>Optional[bool]\<close>, or raises an exception, which comes with its \<open>repr\<close>.
\<close>

datatype 'w verdict =
    Return "bool option"
  | Raise exc "'w repr"

section \<open>Rule plugins (rule_engine.py, lines 60-122)\<close>

text \<open>What building an engine raises.\<close>

datatype error =
    AssertionError string
  | ValueError string
  | TypeError string
  | KeyError string

text \<open>
  \<open>approve_request\<close> is abstract in \<open>RulePlugin\<close>: a plugin class brings its own.
  It may read and change any state of its own (counters, caches): that state, of all
  the plugins together, is the world \<open>'w\<close>, passed in and returned. A plugin class is
  described by the name it is registered under, whether it derives from
  \<open>RulePlugin\<close>, what its constructor raises on given arguments (nothing, for
  \<open>None\<close>), and the \<open>approve_request\<close> of an instance constructed with given
  arguments.

  Modelled from the spec: the base class \<open>Plugin\<close> is not among the source files.
  Of a plugin the engine uses \<open>self.name()\<close>, the name its class is registered under
  and the value of the \<open>rule\<close> field that selects it, and \<open>self.args\<close>, the dict
  its constructor was given.
\<close>

record 'w plugin_class =
  cls_name :: string
  cls_is_rule :: bool
  cls_init :: "entry \<Rightarrow> error option"
  cls_approve :: "entry \<Rightarrow> ApprovalRequest \<Rightarrow> 'w \<Rightarrow> 'w verdict \<times> 'w"

record 'w RulePlugin =
  plugin_cls :: "'w plugin_class"
  args :: entry

definition name :: "'w RulePlugin \<Rightarrow> string" where
  "name self = cls_name (plugin_cls self)"

definition approve_request ::
  "'w RulePlugin \<Rightarrow> ApprovalRequest \<Rightarrow> 'w \<Rightarrow> 'w verdict \<times> 'w" where
  "approve_request self request w = cls_approve (plugin_cls self) (args self) request w"

text \<open>
  The bodies of \<open>check_quota\<close> and \<open>clear_quota\<close> in \<open>RulePlugin\<close> hold a
  docstring only: each returns \<open>None\<close> and changes nothing.
\<close>

definition check_quota :: "'w RulePlugin \<Rightarrow> ProfileInfo \<Rightarrow> 'w \<Rightarrow> bool option \<times> 'w" where
  "check_quota self prof w = (None, w)"

definition clear_quota :: "'w RulePlugin \<Rightarrow> ProfileInfo \<Rightarrow> 'w \<Rightarrow> unit \<times> 'w" where
  "clear_quota self prof w = ((), w)"

section \<open>Evaluation (rule_engine.py, lines 154-237)\<close>

text \<open>
  \<open>RuleSet.approve_request\<close> logs two kinds of records, each naming the rule; the
  second carries the string that \<open>repr(ex)\<close> returned. \<open>log.error\<close> is a call into
  the logging package and, through it, into the \<open>__str__\<close> of the rule and into the
  handlers and filters the application has installed: the logger is a parameter, a
  function that on the state returns, or raises an exception (which has a \<open>repr\<close> of
  its own). The state \<open>'w\<close> is that of the plugins and of the logger together.
\<close>

datatype 'w log_record =
    UnknownRequestType "'w RulePlugin"
  | RuleError "'w RulePlugin" string

type_synonym 'w logger = "'w log_record \<Rightarrow> 'w \<Rightarrow> (exc \<times> 'w repr) option \<times> 'w"

text \<open>
  The handler of \<open>RuleSet.approve_request\<close>, \<open>except Exception as ex\<close>, on an
  exception raised in the \<open>try\<close> block. One that does not derive from \<open>Exception\<close>
  passes. For the others \<open>repr(ex)\<close> is evaluated and the record is logged, both
  outside any \<open>try\<close>: what they raise leaves the method; when they return, the method
  returns \<open>False\<close>. A result is \<open>Inr b\<close> when the method returns \<open>b\<close> and
  \<open>Inl ex\<close> when \<open>ex\<close> leaves it.
\<close>

definition except_Exception ::
  "'w logger \<Rightarrow> 'w RulePlugin \<Rightarrow> exc \<Rightarrow> 'w repr \<Rightarrow> 'w \<Rightarrow> (exc + bool) \<times> 'w" where
  "except_Exception logger rule ex rep w =
     (case ex of
        BaseException c \<Rightarrow> (Inl ex, w)
      | Exception c \<Rightarrow>
          (case rep w of
             (Inl ex1, w1) \<Rightarrow> (Inl ex1, w1)
           | (Inr r, w1) \<Rightarrow>
               (case logger (RuleError rule r) w1 of
                  (Some (ex2, rep2), w2) \<Rightarrow> (Inl ex2, w2)
                | (None, w2) \<Rightarrow> (Inr False, w2))))"

text \<open>
  \<open>RuleSet.approve_request\<close>: the \<open>for\<close> loop over the rules with its
  \<open>try\<close>. The call of the rule and the logging of a \<open>None\<close> result are inside the
  \<open>try\<close>. What a rule did to the state before it raised stays done.
\<close>

fun RuleSet_approve_request ::
  "'w logger \<Rightarrow> 'w RulePlugin list \<Rightarrow> ApprovalRequest \<Rightarrow> 'w \<Rightarrow> (exc + bool) \<times> 'w" where
  "RuleSet_approve_request logger [] request s = (Inr True, s)"
| "RuleSet_approve_request logger (rule # rest) request s =
     (case approve_request rule request s of
        (Raise ex rep, s1) \<Rightarrow> except_Exception logger rule ex rep s1
      | (Return res, s1) \<Rightarrow>
          (case res of
             None \<Rightarrow>
               (case logger (UnknownRequestType rule) s1 of
                  (Some (ex, rep), s2) \<Rightarrow> except_Exception logger rule ex rep s2
                | (None, s2) \<Rightarrow> (Inr False, s2))
           | Some False \<Rightarrow> (Inr False, s1)
           | Some True \<Rightarrow> RuleSet_approve_request logger rest request s1))"

text \<open>\<open>RuleTree.approve_request\<close>: the loop over the rule sets.\<close>

fun RuleTree_approve_request ::
  "'w logger \<Rightarrow> 'w RulePlugin list list \<Rightarrow> ApprovalRequest \<Rightarrow> 'w \<Rightarrow> (exc + bool) \<times> 'w" where
  "RuleTree_approve_request logger [] request s = (Inr False, s)"
| "RuleTree_approve_request logger (rset # rest) request s =
     (case RuleSet_approve_request logger rset request s of
        (Inl ex, s1) \<Rightarrow> (Inl ex, s1)
      | (Inr res, s1) \<Rightarrow>
          if res then (Inr True, s1) else RuleTree_approve_request logger rest request s1)"

text \<open>
  \<open>RuleEngine\<close>: the dict from request type to tree, in insertion order.
  \<open>self.map.get(request.request_type, None)\<close> is \<open>map_of\<close>.
\<close>

record 'w RuleEngine =
  rule_map :: "(RequestType \<times> 'w RulePlugin list list) list"

definition RuleEngine_approve_request ::
  "'w logger \<Rightarrow> 'w RuleEngine \<Rightarrow> ApprovalRequest \<Rightarrow> 'w \<Rightarrow> (exc + bool option) \<times> 'w" where
  "RuleEngine_approve_request logger self request s =
     (case map_of (rule_map self) (request_type request) of
        None \<Rightarrow> (Inr None, s)
      | Some tree \<Rightarrow>
          (case RuleTree_approve_request logger tree request s of
             (Inl ex, s1) \<Rightarrow> (Inl ex, s1)
           | (Inr res, s1) \<Rightarrow> (Inr (Some res), s1)))"

section \<open>Rule identifiers (rule_engine.py, lines 125-151)\<close>

text \<open>
  \<open>str(n)\<close> of a non-negative Python integer: its decimal digits
  (\<open>digit_char\<close> is only applied below 10).
\<close>

definition digit_char :: "nat \<Rightarrow> char" where
  "digit_char d = ''0123456789'' ! d"

fun str_nat :: "nat \<Rightarrow> string" where
  "str_nat n = (if n < 10 then [digit_char n] else str_nat (n div 10) @ [digit_char (n mod 10)])"

declare str_nat.simps [simp del]

text \<open>
  \<open>RuleIdGenerator\<close>: \<open>_seen\<close> is a \<open>defaultdict\<close> with default 0, \<open>_rule_seq\<close>
  a counter. \<open>self._seen[k] += 1\<close> is \<open>seen_incr\<close>.
\<close>

record RuleIdGenerator =
  seen :: "pyval \<rightharpoonup> nat"
  rule_seq :: nat

definition RuleIdGenerator_init :: RuleIdGenerator where
  "RuleIdGenerator_init = \<lparr>seen = Map.empty, rule_seq = 0\<rparr>"

definition seen_incr :: "(pyval \<rightharpoonup> nat) \<Rightarrow> pyval \<Rightarrow> (pyval \<rightharpoonup> nat)" where
  "seen_incr m k = m(k \<mapsto> (case m k of None \<Rightarrow> 0 | Some n \<Rightarrow> n) + 1)"

text \<open>
  \<open>inject_rule_id\<close>. The two library calls are parameters.
  \<open>json_dumps ent\<close> is \<open>json.dumps(ent, sort_keys=True, separators=(",", ":"))\<close>:
  it returns the encoding or raises (\<open>TypeError\<close> on a value it cannot serialise,
  a date for one). \<open>md5_hexdigest d\<close> is \<open>hashlib.md5(d.encode("utf8")).hexdigest()\<close>;
  the encoding is ASCII, and MD5 is taken to be available.
  The method changes the generator and the entry in place: the model returns both as
  the call leaves them, with the exception if it raises. The sequence number is
  incremented first. When \<open>json.dumps\<close> raises, the entry is still as it was. A truthy
  \<open>rule_id\<close> that is a list, a dict or another unhashable object cannot be a key of
  \<open>_seen\<close>: the last line raises \<open>TypeError\<close>.
\<close>

definition inject_rule_id ::
  "(entry \<Rightarrow> error + string) \<Rightarrow> (string \<Rightarrow> string) \<Rightarrow> RuleIdGenerator \<Rightarrow> entry
     \<Rightarrow> error option \<times> RuleIdGenerator \<times> entry" where
  "inject_rule_id json_dumps md5_hexdigest self ent =
     (let rule_seq1 = rule_seq self + 1;
          rule_id = dict_get ent ''rule_id''
      in if \<not> truthy rule_id then
           (case json_dumps ent of
              Inl e \<Rightarrow> (Some e, \<lparr>seen = seen self, rule_seq = rule_seq1\<rparr>, ent)
            | Inr ent_data \<Rightarrow>
                (let ent_hash = md5_hexdigest ent_data;
                     ent_hash1 = (if seen self (PStr ent_hash) \<noteq> None
                                  then ent_hash @ ''.'' @ str_nat rule_seq1
                                  else ent_hash)
                 in (None,
                     \<lparr>seen = seen_incr (seen self) (PStr ent_hash1), rule_seq = rule_seq1\<rparr>,
                     ent(''rule_id'' \<mapsto> PStr ent_hash1))))
         else if hashable rule_id then
           (None, \<lparr>seen = seen_incr (seen self) (dict_key rule_id), rule_seq = rule_seq1\<rparr>, ent)
         else (Some (TypeError ''unhashable type''),
               \<lparr>seen = seen self, rule_seq = rule_seq1\<rparr>, ent))"

section \<open>Building and saving (rule_engine.py, lines 106-122, 176-219, 246-281)\<close>

text \<open>
  Modelled from the spec: the plugin registry \<open>Plugin.get_by_name\<close> and the
  constructor of \<open>Plugin\<close> are not among the source files. The registry is the list
  of the registered plugin classes, the latest first (a class registered later under
  the same name replaces the earlier one, as the tests of the plugin library expect),
  looked up by the name in the entry's \<open>rule\<close> field; a name that is not registered
  is an error. The constructor keeps the dict it is given as \<open>self.args\<close> (what
  \<open>to_dict\<close> copies) and does not change it, after the class's own checks
  \<open>cls_init\<close>.
\<close>

definition get_by_name :: "'w plugin_class list \<Rightarrow> pyval \<Rightarrow> error + 'w plugin_class" where
  "get_by_name registry pname =
     (case pname of
        PStr n \<Rightarrow>
          (case find (\<lambda>c. cls_name c = n) registry of
             None \<Rightarrow> Inl (KeyError n)
           | Some c \<Rightarrow> Inr c)
      | _ \<Rightarrow> Inl (KeyError []))"

text \<open>
  \<open>RulePlugin.from_dict\<close>. The entries of the model are dicts by their type, so the
  first assertion holds. \<open>data.pop("rule")\<close> removes the key from the entry itself,
  before the class is looked up; the entry then becomes the plugin's \<open>args\<close>. The
  entry as the call leaves it is returned with the plugin, or with the exception.
\<close>

definition RulePlugin_from_dict ::
  "'w plugin_class list \<Rightarrow> entry \<Rightarrow> (error + 'w RulePlugin) \<times> entry" where
  "RulePlugin_from_dict registry data =
     (case data ''rule'' of
        None \<Rightarrow> (Inl (AssertionError ''Rule entries must have a plugin name''), data)
      | Some pname \<Rightarrow>
          (let data1 = data(''rule'' := None) in
           case get_by_name registry pname of
             Inl e \<Rightarrow> (Inl e, data1)
           | Inr c \<Rightarrow>
               (case cls_init c data1 of
                  Some e \<Rightarrow> (Inl e, data1)
                | None \<Rightarrow>
                    if cls_is_rule c
                    then (Inr \<lparr>plugin_cls = c, args = data1\<rparr>, data1)
                    else (Inl (AssertionError ''Rule plugins must derive from RulePlugin''),
                          data1))))"

definition RulePlugin_to_dict :: "'w RulePlugin \<Rightarrow> entry" where
  "RulePlugin_to_dict self = (args self)(''rule'' \<mapsto> PStr (name self))"

text \<open>
  \<open>RuleSet.from_list\<close> and \<open>RuleTree.from_list\<close>: the loops, with the generator
  passed along. Each returns what it built, or the exception that ended it, with the
  entries and the generator as the loop left them: the entries it visited changed, the
  others as they were.
\<close>

fun RuleSet_from_list ::
  "'w plugin_class list \<Rightarrow> (entry \<Rightarrow> error + string) \<Rightarrow> (string \<Rightarrow> string) \<Rightarrow> entry list
     \<Rightarrow> RuleIdGenerator \<Rightarrow> (error + 'w RulePlugin list) \<times> entry list \<times> RuleIdGenerator" where
  "RuleSet_from_list registry json_dumps md5_hexdigest [] rgen = (Inr [], [], rgen)"
| "RuleSet_from_list registry json_dumps md5_hexdigest (ent # ruledata) rgen =
     (case inject_rule_id json_dumps md5_hexdigest rgen ent of
        (Some e, rgen1, ent1) \<Rightarrow> (Inl e, ent1 # ruledata, rgen1)
      | (None, rgen1, ent1) \<Rightarrow>
          (case RulePlugin_from_dict registry ent1 of
             (Inl e, ent2) \<Rightarrow> (Inl e, ent2 # ruledata, rgen1)
           | (Inr p, ent2) \<Rightarrow>
               (case RuleSet_from_list registry json_dumps md5_hexdigest ruledata rgen1 of
                  (Inl e, ents, rgen2) \<Rightarrow> (Inl e, ent2 # ents, rgen2)
                | (Inr lst, ents, rgen2) \<Rightarrow> (Inr (p # lst), ent2 # ents, rgen2))))"

definition RuleSet_to_list :: "'w RulePlugin list \<Rightarrow> entry list" where
  "RuleSet_to_list self = map RulePlugin_to_dict self"

fun RuleTree_from_list ::
  "'w plugin_class list \<Rightarrow> (entry \<Rightarrow> error + string) \<Rightarrow> (string \<Rightarrow> string) \<Rightarrow> entry list list
     \<Rightarrow> RuleIdGenerator
     \<Rightarrow> (error + 'w RulePlugin list list) \<times> entry list list \<times> RuleIdGenerator" where
  "RuleTree_from_list registry json_dumps md5_hexdigest [] rgen = (Inr [], [], rgen)"
| "RuleTree_from_list registry json_dumps md5_hexdigest (ent # ruledefs) rgen =
     (case RuleSet_from_list registry json_dumps md5_hexdigest ent rgen of
        (Inl e, ent1, rgen1) \<Rightarrow> (Inl e, ent1 # ruledefs, rgen1)
      | (Inr rset, ent1, rgen1) \<Rightarrow>
          (case RuleTree_from_list registry json_dumps md5_hexdigest ruledefs rgen1 of
             (Inl e, ents, rgen2) \<Rightarrow> (Inl e, ent1 # ents, rgen2)
           | (Inr ini, ents, rgen2) \<Rightarrow> (Inr (rset # ini), ent1 # ents, rgen2)))"

definition RuleTree_to_list :: "'w RulePlugin list list \<Rightarrow> entry list list" where
  "RuleTree_to_list self = map RuleSet_to_list self"

text \<open>\<open>RequestType(rtype)\<close> looks a member up by its value; \<open>req.value\<close> reads it.\<close>

definition RequestType_value :: "RequestType \<Rightarrow> string" where
  "RequestType_value req =
     (case req of
        DECRYPT \<Rightarrow> ''decrypt''
      | SEARCH \<Rightarrow> ''search''
      | CREATE_PROFILE \<Rightarrow> ''create_profile''
      | ACTIVATE_LOCATION \<Rightarrow> ''activate_location''
      | CREATE_LOCATION \<Rightarrow> ''create_location''
      | RENAME_FILE \<Rightarrow> ''rename''
      | SECURE_EXPORT \<Rightarrow> ''secure_export'')"

definition RequestType_of :: "string \<Rightarrow> error + RequestType" where
  "RequestType_of rtype =
     (if rtype = ''decrypt'' then Inr DECRYPT
      else if rtype = ''search'' then Inr SEARCH
      else if rtype = ''create_profile'' then Inr CREATE_PROFILE
      else if rtype = ''activate_location'' then Inr ACTIVATE_LOCATION
      else if rtype = ''create_location'' then Inr CREATE_LOCATION
      else if rtype = ''rename'' then Inr RENAME_FILE
      else if rtype = ''secure_export'' then Inr SECURE_EXPORT
      else Inl (ValueError rtype))"

text \<open>
  \<open>RuleEngine.from_dict\<close>: \<open>info\<close> is the dict of the policy file in its order,
  \<open>rule_map[rtype] = tree\<close> is \<open>AList.update\<close>. The loop returns the map, or the
  exception that ended it, and the tree definitions as it left them.
\<close>

type_synonym policy = "(string \<times> entry list list) list"

fun from_dict_loop ::
  "'w plugin_class list \<Rightarrow> (entry \<Rightarrow> error + string) \<Rightarrow> (string \<Rightarrow> string) \<Rightarrow> policy
     \<Rightarrow> RuleIdGenerator \<Rightarrow> (RequestType \<times> 'w RulePlugin list list) list
     \<Rightarrow> (error + (RequestType \<times> 'w RulePlugin list list) list) \<times> policy" where
  "from_dict_loop registry json_dumps md5_hexdigest [] rgen rmap = (Inr rmap, [])"
| "from_dict_loop registry json_dumps md5_hexdigest ((rtype, treedef) # info) rgen rmap =
     (case RequestType_of rtype of
        Inl e \<Rightarrow> (Inl e, (rtype, treedef) # info)
      | Inr rt \<Rightarrow>
          (case RuleTree_from_list registry json_dumps md5_hexdigest treedef rgen of
             (Inl e, treedef1, rgen1) \<Rightarrow> (Inl e, (rtype, treedef1) # info)
           | (Inr tree, treedef1, rgen1) \<Rightarrow>
               (case from_dict_loop registry json_dumps md5_hexdigest info rgen1
                       (AList.update rt tree rmap) of
                  (res, info1) \<Rightarrow> (res, (rtype, treedef1) # info1))))"

definition RuleEngine_from_dict ::
  "'w plugin_class list \<Rightarrow> (entry \<Rightarrow> error + string) \<Rightarrow> (string \<Rightarrow> string) \<Rightarrow> policy
     \<Rightarrow> (error + 'w RuleEngine) \<times> policy" where
  "RuleEngine_from_dict registry json_dumps md5_hexdigest info =
     (case from_dict_loop registry json_dumps md5_hexdigest info RuleIdGenerator_init [] of
        (Inl e, info1) \<Rightarrow> (Inl e, info1)
      | (Inr rmap, info1) \<Rightarrow> (Inr \<lparr>rule_map = rmap\<rparr>, info1))"

definition RuleEngine_to_dict :: "'w RuleEngine \<Rightarrow> policy" where
  "RuleEngine_to_dict self =
     map (\<lambda>(req, ent). (RequestType_value req, RuleTree_to_list ent)) (rule_map self)"

section \<open>Building in place: the entries as dict objects\<close>

text \<open>
  \<open>inject_rule_id\<close> and \<open>RulePlugin.from_dict\<close> change the dict they are given.
  The functions above take each entry as a value, which is what a build computes on a
  policy whose entries are separate dict objects. A policy read from YAML may list one
  dict object twice, or have an entry as the value of a key of another entry (an
  alias). For what a build does to the dict objects themselves, here are the same
  functions on a store: a dict object has an address, the policy lists addresses, and
  the value of a key is a plain value, a dict object (given by its address), or a list
  that has dict objects among its items.
\<close>

type_synonym addr = nat

datatype cell =
    Val pyval
  | Ref addr
  | Items "cell list"

type_synonym dict_object = "string \<rightharpoonup> cell"

type_synonym store = "addr \<Rightarrow> dict_object"

text \<open>The truth value of a dict is whether it has a key, that of a list whether it has an item.\<close>

fun truthy_cell :: "store \<Rightarrow> cell \<Rightarrow> bool" where
  "truthy_cell h (Val v) = truthy v"
| "truthy_cell h (Ref a) = (h a \<noteq> Map.empty)"
| "truthy_cell h (Items cs) = (cs \<noteq> [])"

definition cell_get :: "dict_object \<Rightarrow> string \<Rightarrow> cell" where
  "cell_get ent k = (case ent k of None \<Rightarrow> Val PNone | Some c \<Rightarrow> c)"

text \<open>
  \<open>inject_rule_id\<close> on the dict object at the address \<open>ent\<close>. \<open>json_dumps h ent\<close>
  is \<open>json.dumps\<close> of that object, which encodes the objects it refers to as well
  (and raises \<open>ValueError\<close> on a circular reference). A dict and a list are not
  hashable.
\<close>

definition inject_rule_id_in_place ::
  "(store \<Rightarrow> addr \<Rightarrow> error + string) \<Rightarrow> (string \<Rightarrow> string) \<Rightarrow> RuleIdGenerator \<Rightarrow> store \<Rightarrow> addr
     \<Rightarrow> error option \<times> RuleIdGenerator \<times> store" where
  "inject_rule_id_in_place json_dumps md5_hexdigest self h ent =
     (let rule_seq1 = rule_seq self + 1;
          rule_id = cell_get (h ent) ''rule_id''
      in if \<not> truthy_cell h rule_id then
           (case json_dumps h ent of
              Inl e \<Rightarrow> (Some e, \<lparr>seen = seen self, rule_seq = rule_seq1\<rparr>, h)
            | Inr ent_data \<Rightarrow>
                (let ent_hash = md5_hexdigest ent_data;
                     ent_hash1 = (if seen self (PStr ent_hash) \<noteq> None
                                  then ent_hash @ ''.'' @ str_nat rule_seq1
                                  else ent_hash)
                 in (None,
                     \<lparr>seen = seen_incr (seen self) (PStr ent_hash1), rule_seq = rule_seq1\<rparr>,
                     h(ent := (h ent)(''rule_id'' \<mapsto> Val (PStr ent_hash1))))))
         else
           (case rule_id of
              Val v \<Rightarrow>
                if hashable v then
                  (None, \<lparr>seen = seen_incr (seen self) (dict_key v), rule_seq = rule_seq1\<rparr>, h)
                else (Some (TypeError ''unhashable type''),
                      \<lparr>seen = seen self, rule_seq = rule_seq1\<rparr>, h)
            | _ \<Rightarrow> (Some (TypeError ''unhashable type''),
                    \<lparr>seen = seen self, rule_seq = rule_seq1\<rparr>, h)))"

text \<open>
  \<open>RulePlugin.from_dict\<close> on the dict object at the address \<open>data\<close>: the \<open>rule\<close>
  key is popped from the object before the class is looked up.

  Modelled from the spec: \<open>RulePlugin.get_by_name(pname)(data)\<close> is code of the plugin
  library and of the plugin class, not among the source files. It is a parameter here:
  \<open>new_plugin pname h data\<close> is the plugin it returns, or what it raises, and it is
  taken to change no dict object. \<open>is_rule p\<close> is \<open>isinstance(p, RulePlugin)\<close>.
\<close>

definition RulePlugin_from_dict_in_place ::
  "(cell \<Rightarrow> store \<Rightarrow> addr \<Rightarrow> error + 'p) \<Rightarrow> ('p \<Rightarrow> bool) \<Rightarrow> store \<Rightarrow> addr
     \<Rightarrow> (error + 'p) \<times> store" where
  "RulePlugin_from_dict_in_place new_plugin is_rule h data =
     (case h data ''rule'' of
        None \<Rightarrow> (Inl (AssertionError ''Rule entries must have a plugin name''), h)
      | Some pname \<Rightarrow>
          (let h1 = h(data := (h data)(''rule'' := None)) in
           case new_plugin pname h1 data of
             Inl e \<Rightarrow> (Inl e, h1)
           | Inr p \<Rightarrow>
               if is_rule p then (Inr p, h1)
               else (Inl (AssertionError ''Rule plugins must derive from RulePlugin''), h1)))"

text \<open>
  The loops of \<open>RuleSet.from_list\<close>, \<open>RuleTree.from_list\<close> and
  \<open>RuleEngine.from_dict\<close> over the addresses of the entries. Each returns what it
  built, or the exception that ended it, with the store as it left it.
\<close>

fun RuleSet_from_list_in_place ::
  "(cell \<Rightarrow> store \<Rightarrow> addr \<Rightarrow> error + 'p) \<Rightarrow> ('p \<Rightarrow> bool) \<Rightarrow> (store \<Rightarrow> addr \<Rightarrow> error + string)
     \<Rightarrow> (string \<Rightarrow> string) \<Rightarrow> addr list \<Rightarrow> RuleIdGenerator \<Rightarrow> store
     \<Rightarrow> (error + 'p list) \<times> store \<times> RuleIdGenerator" where
  "RuleSet_from_list_in_place new_plugin is_rule json_dumps md5_hexdigest [] rgen h =
     (Inr [], h, rgen)"
| "RuleSet_from_list_in_place new_plugin is_rule json_dumps md5_hexdigest (ent # ruledata) rgen h =
     (case inject_rule_id_in_place json_dumps md5_hexdigest rgen h ent of
        (Some e, rgen1, h1) \<Rightarrow> (Inl e, h1, rgen1)
      | (None, rgen1, h1) \<Rightarrow>
          (case RulePlugin_from_dict_in_place new_plugin is_rule h1 ent of
             (Inl e, h2) \<Rightarrow> (Inl e, h2, rgen1)
           | (Inr p, h2) \<Rightarrow>
               (case RuleSet_from_list_in_place new_plugin is_rule json_dumps md5_hexdigest
                       ruledata rgen1 h2 of
                  (Inl e, h3, rgen2) \<Rightarrow> (Inl e, h3, rgen2)
                | (Inr lst, h3, rgen2) \<Rightarrow> (Inr (p # lst), h3, rgen2))))"

fun RuleTree_from_list_in_place ::
  "(cell \<Rightarrow> store \<Rightarrow> addr \<Rightarrow> error + 'p) \<Rightarrow> ('p \<Rightarrow> bool) \<Rightarrow> (store \<Rightarrow> addr \<Rightarrow> error + string)
     \<Rightarrow> (string \<Rightarrow> string) \<Rightarrow> addr list list \<Rightarrow> RuleIdGenerator \<Rightarrow> store
     \<Rightarrow> (error + 'p list list) \<times> store \<times> RuleIdGenerator" where
  "RuleTree_from_list_in_place new_plugin is_rule json_dumps md5_hexdigest [] rgen h =
     (Inr [], h, rgen)"
| "RuleTree_from_list_in_place new_plugin is_rule json_dumps md5_hexdigest (ent # ruledefs) rgen h =
     (case RuleSet_from_list_in_place new_plugin is_rule json_dumps md5_hexdigest ent rgen h of
        (Inl e, h1, rgen1) \<Rightarrow> (Inl e, h1, rgen1)
      | (Inr rset, h1, rgen1) \<Rightarrow>
          (case RuleTree_from_list_in_place new_plugin is_rule json_dumps md5_hexdigest
                  ruledefs rgen1 h1 of
             (Inl e, h2, rgen2) \<Rightarrow> (Inl e, h2, rgen2)
           | (Inr ini, h2, rgen2) \<Rightarrow> (Inr (rset # ini), h2, rgen2)))"

type_synonym policy_in_place = "(string \<times> addr list list) list"

fun from_dict_loop_in_place ::
  "(cell \<Rightarrow> store \<Rightarrow> addr \<Rightarrow> error + 'p) \<Rightarrow> ('p \<Rightarrow> bool) \<Rightarrow> (store \<Rightarrow> addr \<Rightarrow> error + string)
     \<Rightarrow> (string \<Rightarrow> string) \<Rightarrow> policy_in_place \<Rightarrow> RuleIdGenerator
     \<Rightarrow> (RequestType \<times> 'p list list) list \<Rightarrow> store
     \<Rightarrow> (error + (RequestType \<times> 'p list list) list) \<times> store" where
  "from_dict_loop_in_place new_plugin is_rule json_dumps md5_hexdigest [] rgen rmap h =
     (Inr rmap, h)"
| "from_dict_loop_in_place new_plugin is_rule json_dumps md5_hexdigest ((rtype, treedef) # info)
       rgen rmap h =
     (case RequestType_of rtype of
        Inl e \<Rightarrow> (Inl e, h)
      | Inr rt \<Rightarrow>
          (case RuleTree_from_list_in_place new_plugin is_rule json_dumps md5_hexdigest
                  treedef rgen h of
             (Inl e, h1, rgen1) \<Rightarrow> (Inl e, h1)
           | (Inr tree, h1, rgen1) \<Rightarrow>
               from_dict_loop_in_place new_plugin is_rule json_dumps md5_hexdigest info rgen1
                 (AList.update rt tree rmap) h1))"

text \<open>
  \<open>RuleEngine.from_dict\<close> on the store \<open>h\<close>: the map of the engine it returns, or
  the exception, and the store as the build left it.
\<close>

definition RuleEngine_from_dict_in_place ::
  "(cell \<Rightarrow> store \<Rightarrow> addr \<Rightarrow> error + 'p) \<Rightarrow> ('p \<Rightarrow> bool) \<Rightarrow> (store \<Rightarrow> addr \<Rightarrow> error + string)
     \<Rightarrow> (string \<Rightarrow> string) \<Rightarrow> store \<Rightarrow> policy_in_place
     \<Rightarrow> (error + (RequestType \<times> 'p list list) list) \<times> store" where
  "RuleEngine_from_dict_in_place new_plugin is_rule json_dumps md5_hexdigest h info =
     from_dict_loop_in_place new_plugin is_rule json_dumps md5_hexdigest info
       RuleIdGenerator_init [] h"

section \<open>Sample values\<close>

text \<open>
  A decrypt request, a state that counts the calls of \<open>approve_request\<close> and keeps
  the lines logged, a logger that appends its line and returns, and call-counting stub
  plugins: every call of a stub gives the verdict \<open>v\<close>.
\<close>

definition request0 :: ApprovalRequest where
  "request0 =
     \<lparr>request_type = DECRYPT, device_id = [1],
      profile = \<lparr>profile_id = [2], profile_words = [''able'', ''baker'']\<rparr>,
      auth_meta = [\<lparr>meta = ''/vault/a.txt'', complete = True\<rparr>]\<rparr>"

record trace =
  calls :: nat
  logged :: "string list"

definition trace0 :: trace where
  "trace0 = \<lparr>calls = 0, logged = []\<rparr>"

definition logger0 :: "trace logger" where
  "logger0 rec w =
     (None,
      w\<lparr>logged := logged w @
        [case rec of
           UnknownRequestType rule \<Rightarrow> ''unknown request type error in rule '' @ name rule
         | RuleError rule r \<Rightarrow> ''error in rule '' @ name rule @ '': '' @ r]\<rparr>)"

definition counting_stub :: "string \<Rightarrow> trace verdict \<Rightarrow> trace plugin_class" where
  "counting_stub n v =
     \<lparr>cls_name = n, cls_is_rule = True, cls_init = (\<lambda>a. None),
      cls_approve = (\<lambda>a request w. (v, w\<lparr>calls := Suc (calls w)\<rparr>))\<rparr>"

definition new_rule :: "'w plugin_class \<Rightarrow> 'w RulePlugin" where
  "new_rule c = \<lparr>plugin_cls = c, args = Map.empty\<rparr>"

definition yes_rule :: "trace RulePlugin" where
  "yes_rule = new_rule (counting_stub ''yes'' (Return (Some True)))"

definition no_rule :: "trace RulePlugin" where
  "no_rule = new_rule (counting_stub ''no'' (Return (Some False)))"

definition none_rule :: "trace RulePlugin" where
  "none_rule = new_rule (counting_stub ''none'' (Return None))"

text \<open>
  A rule that raises \<open>KeyError(1)\<close>; one that raises a \<open>ValueError\<close> whose argument
  has a \<open>__repr__\<close> that raises \<open>RuntimeError\<close>; one that raises
  \<open>KeyboardInterrupt\<close>.
\<close>

definition faulty_rule :: "trace RulePlugin" where
  "faulty_rule =
     new_rule (counting_stub ''faulty''
       (Raise (Exception ''KeyError'') (\<lambda>w. (Inr ''KeyError(1)'', w))))"

definition bad_repr_rule :: "trace RulePlugin" where
  "bad_repr_rule =
     new_rule (counting_stub ''bad_repr''
       (Raise (Exception ''ValueError'') (\<lambda>w. (Inl (Exception ''RuntimeError''), w))))"

definition interrupted_rule :: "trace RulePlugin" where
  "interrupted_rule =
     new_rule (counting_stub ''interrupted''
       (Raise (BaseException ''KeyboardInterrupt'') (\<lambda>w. (Inr ''KeyboardInterrupt()'', w))))"

definition registry0 :: "trace plugin_class list" where
  "registry0 =
     [counting_stub ''yes'' (Return (Some True)), counting_stub ''no'' (Return (Some False))]"

text \<open>
  The two library functions on the sample entries. \<open>json_dumps0\<close> agrees with
  \<open>json.dumps\<close> (sorted keys, compact separators) on an entry whose keys are among
  \<open>param\<close>, \<open>rule\<close> and \<open>rule_id\<close> and whose values are strings of plain
  characters, integers, booleans, \<open>None\<close> or objects of a type that \<open>json\<close> does
  not serialise, on which it raises \<open>TypeError\<close>; lists and dicts are not among the
  samples. \<open>md5_hexdigest0\<close> holds the MD5 digests of five such encodings and stands
  for a digest, 32 zeros, on every other string.
\<close>

definition quote :: "string \<Rightarrow> string" where
  "quote s = CHR 0x22 # s @ [CHR 0x22]"

definition str_int :: "int \<Rightarrow> string" where
  "str_int i = (if i < 0 then ''-'' @ str_nat (nat (- i)) else str_nat (nat i))"

fun json_value0 :: "pyval \<Rightarrow> error + string" where
  "json_value0 (PStr s) = Inr (quote s)"
| "json_value0 (PBool b) = Inr (if b then ''true'' else ''false'')"
| "json_value0 PNone = Inr ''null''"
| "json_value0 (PInt i) = Inr (str_int i)"
| "json_value0 (PObject t h ty r) =
     Inl (TypeError (''Object of type '' @ ty @ '' is not JSON serializable''))"
| "json_value0 v = Inl (TypeError ''nested values are not among the samples'')"

fun json_items0 :: "entry \<Rightarrow> string list \<Rightarrow> error + string list" where
  "json_items0 ent [] = Inr []"
| "json_items0 ent (k # ks) =
     (case ent k of
        None \<Rightarrow> json_items0 ent ks
      | Some v \<Rightarrow>
          (case json_value0 v of
             Inl e \<Rightarrow> Inl e
           | Inr j \<Rightarrow>
               (case json_items0 ent ks of
                  Inl e \<Rightarrow> Inl e
                | Inr js \<Rightarrow> Inr (['','', quote k @ '':'' @ j] @ js))))"

definition json_dumps0 :: "entry \<Rightarrow> error + string" where
  "json_dumps0 ent =
     (case json_items0 ent [''param'', ''rule'', ''rule_id''] of
        Inl e \<Rightarrow> Inl e
      | Inr js \<Rightarrow> Inr (''{'' @ concat (tl js) @ ''}''))"

definition md5_table :: "(string \<times> string) list" where
  \<open>md5_table =
     [(''{"rule":"yes"}'', ''9c391654df0fed88e67a23c485403636''),
      (''{"rule":"yes","rule_id":""}'', ''29a249415541fab204dc4b2a1eb751e3''),
      (''{"rule":"no"}'', ''6ac0b17e6dbb3e9282a5e92082c2a7e8''),
      (''{"param":"a","rule":"yes"}'', ''54046508b74a31158278e928f91fffa9''),
      (''{"rule":"missing"}'', ''7346811cfb5ca2337a9211e4ee29c39f'')]\<close>

definition md5_hexdigest0 :: "string \<Rightarrow> string" where
  "md5_hexdigest0 d =
     (case map_of md5_table d of Some h \<Rightarrow> h | None \<Rightarrow> replicate 32 (CHR ''0''))"

definition yes_entry :: entry where
  "yes_entry = [''rule'' \<mapsto> PStr ''yes'']"

text \<open>The value that YAML reads from \<open>2024-01-01\<close>.\<close>

definition a_date :: pyval where
  "a_date = PObject True True ''date'' ''datetime.date(2024, 1, 1)''"

text \<open>
  A store of four dict objects: object 0 has an identifier and, under \<open>param\<close>,
  object 1 (an alias); the class of object 2 is not registered. For the build in place,
  the plugin library has the classes \<open>yes\<close> and \<open>no\<close>, a plugin being given by
  the name of its class, and \<open>json_dumps_in_place0\<close> encodes a dict object whose
  values are plain as \<open>json_dumps0\<close> does; nested objects are not among the samples.
\<close>

definition store0 :: store where
  "store0 =
     (\<lambda>a. Map.empty)
       (0 := [''rule'' \<mapsto> Val (PStr ''yes''), ''rule_id'' \<mapsto> Val (PStr ''front-door''),
              ''param'' \<mapsto> Ref 1],
        1 := [''rule'' \<mapsto> Val (PStr ''no'')],
        2 := [''rule'' \<mapsto> Val (PStr ''missing'')],
        3 := [''rule'' \<mapsto> Val (PStr ''yes'')])"

definition new_plugin0 :: "cell \<Rightarrow> store \<Rightarrow> addr \<Rightarrow> error + string" where
  "new_plugin0 pname h data =
     (case pname of
        Val (PStr n) \<Rightarrow> if n = ''yes'' \<or> n = ''no'' then Inr n else Inl (KeyError n)
      | _ \<Rightarrow> Inl (KeyError []))"

definition is_rule0 :: "string \<Rightarrow> bool" where
  "is_rule0 p = True"

definition json_dumps_in_place0 :: "store \<Rightarrow> addr \<Rightarrow> error + string" where
  "json_dumps_in_place0 h ent =
     json_dumps0
       (\<lambda>k. case h ent k of
               None \<Rightarrow> None
             | Some (Val v) \<Rightarrow> Some v
             | Some c \<Rightarrow> Some (PDict []))"

section \<open>Notions used by the statements\<close>



text \<open>An MD5 hex digest is 32 lower-case hexadecimal digits.\<close>

definition hexdigest :: "(string \<Rightarrow> string) \<Rightarrow> bool" where
  "hexdigest md5_hexdigest =
     (\<forall>d. length (md5_hexdigest d) = 32 \<and> set (md5_hexdigest d) \<subseteq> set ''0123456789abcdef'')"

text \<open>The entries of a policy in the order of the traversal.\<close>

definition entries_of :: "policy \<Rightarrow> entry list" where
  "entries_of info = concat (concat (map snd info))"

text \<open>
  A plugin as a successful build leaves it: its class is the registered one of its
  name, the class accepts its \<open>args\<close>, and the \<open>args\<close> have no \<open>rule\<close> key and
  a truthy, hashable \<open>rule_id\<close>.
\<close>

definition well_built :: "'w plugin_class list \<Rightarrow> 'w RulePlugin \<Rightarrow> bool" where
  "well_built registry p =
     (get_by_name registry (PStr (name p)) = Inr (plugin_cls p) \<and>
      cls_init (plugin_cls p) (args p) = None \<and>
      cls_is_rule (plugin_cls p) \<and>
      args p ''rule'' = None \<and>
      truthy (dict_get (args p) ''rule_id'') \<and>
      hashable (dict_get (args p) ''rule_id''))"

text \<open>The addresses of the entries of a policy in the order of the traversal.\<close>

definition addresses_of :: "policy_in_place \<Rightarrow> addr list" where
  "addresses_of info = concat (concat (map snd info))"

text \<open>
  What a build may have done to one dict object \<open>e\<close>, left as \<open>e1\<close>, whether it
  returned or raised: the \<open>rule\<close> key is as it was or gone, \<open>rule_id\<close> is as it
  was or, when it was not truthy (in the store \<open>h\<close> the build started from), a
  generated string, and every other key has the value it had: the same plain value or
  the same object. A build changes the store \<open>h\<close> into \<open>h1\<close> in that way, and
  changes no object outside the addresses \<open>V\<close>.
\<close>

definition touched :: "store \<Rightarrow> dict_object \<Rightarrow> dict_object \<Rightarrow> bool" where
  "touched h e e1 =
     ((e1 ''rule'' = e ''rule'' \<or> e1 ''rule'' = None) \<and>
      (e1 ''rule_id'' = e ''rule_id'' \<or>
       \<not> truthy_cell h (cell_get e ''rule_id'') \<and> (\<exists>s. e1 ''rule_id'' = Some (Val (PStr s)))) \<and>
      (\<forall>k. k \<noteq> ''rule'' \<and> k \<noteq> ''rule_id'' \<longrightarrow> e1 k = e k))"

definition touched_store :: "store \<Rightarrow> addr set \<Rightarrow> store \<Rightarrow> bool" where
  "touched_store h V h1 =
     ((\<forall>a. a \<notin> V \<longrightarrow> h1 a = h a) \<and> (\<forall>a. touched h (h a) (h1 a)))"

text \<open>
  What a build that returned has done to the dict object \<open>e\<close> of an entry, left as
  \<open>e1\<close>: the \<open>rule\<close> key, which was there, is gone, \<open>rule_id\<close> is as it was
  when it was truthy and a generated string otherwise, and every other key has the
  value it had. Such a build has changed the objects at the addresses \<open>V\<close> in that
  way, and no other object.
\<close>

definition built :: "store \<Rightarrow> dict_object \<Rightarrow> dict_object \<Rightarrow> bool" where
  "built h e e1 =
     (e ''rule'' \<noteq> None \<and> e1 ''rule'' = None \<and>
      (if truthy_cell h (cell_get e ''rule_id'') then e1 ''rule_id'' = e ''rule_id''
       else \<exists>s. e1 ''rule_id'' = Some (Val (PStr s))) \<and>
      (\<forall>k. k \<noteq> ''rule'' \<and> k \<noteq> ''rule_id'' \<longrightarrow> e1 k = e k))"

definition built_store :: "store \<Rightarrow> addr set \<Rightarrow> store \<Rightarrow> bool" where
  "built_store h V h1 =
     ((\<forall>a. a \<notin> V \<longrightarrow> h1 a = h a) \<and> (\<forall>a \<in> V. built h (h a) (h1 a)))"

text \<open>
  A dict object whose values are all plain, and the entry it is as a value. The policy
  of entries that a store holds at the addresses of a policy. The plugin library of
  the functions on values, for the functions on a store: the class is looked up in
  the registry and constructed on the entry that the dict object is.
\<close>

definition plain_object :: "dict_object \<Rightarrow> bool" where
  "plain_object ent = (\<forall>k c. ent k = Some c \<longrightarrow> (\<exists>v. c = Val v))"

definition plain :: "dict_object \<Rightarrow> entry" where
  "plain ent k = (case ent k of Some (Val v) \<Rightarrow> Some v | _ \<Rightarrow> None)"

definition values_of :: "store \<Rightarrow> policy_in_place \<Rightarrow> policy" where
  "values_of h info =
     map (\<lambda>(rtype, treedef). (rtype, map (map (\<lambda>a. plain (h a))) treedef)) info"

definition registry_new_plugin ::
  "'w plugin_class list \<Rightarrow> cell \<Rightarrow> store \<Rightarrow> addr \<Rightarrow> error + 'w RulePlugin" where
  "registry_new_plugin registry pname h data =
     (case pname of
        Val v \<Rightarrow>
          (case get_by_name registry v of
             Inl e \<Rightarrow> Inl e
           | Inr c \<Rightarrow>
               (case cls_init c (plain (h data)) of
                  Some e \<Rightarrow> Inl e
                | None \<Rightarrow> Inr \<lparr>plugin_cls = c, args = plain (h data)\<rparr>))
      | _ \<Rightarrow> Inl (KeyError []))"

section \<open>Evaluation: the combinators\<close>

lemmas stub_defs = approve_request_def new_rule_def counting_stub_def yes_rule_def no_rule_def
  none_rule_def faulty_rule_def bad_repr_rule_def interrupted_rule_def trace0_def logger0_def
  except_Exception_def name_def



lemma RuleTree_approve_request_append:
  "RuleTree_approve_request logger pre request s = (Inr False, s1) \<Longrightarrow>
   RuleTree_approve_request logger (pre @ post) request s =
     RuleTree_approve_request logger post request s1"
proof (induction pre arbitrary: s)
  case Nil
  then show ?case by simp
next
  case (Cons g pre)
  then show ?case
    by (auto split: prod.splits sum.splits if_splits)
qed








text \<open>
  Claim C2. \<open>RuleTree.approve_request\<close> evaluates its rule sets in the order of the
  list, each on the state the rule sets before it left. An empty tree returns \<open>False\<close>,
  and so does one whose rule sets all return \<open>False\<close>. When the rule sets before
  \<open>rset\<close> have all returned \<open>False\<close> and \<open>rset\<close> returns \<open>True\<close>, the tree returns
  \<open>True\<close> in the state \<open>rset\<close> left, whatever rule sets follow: none of them is
  evaluated. When \<open>rset\<close> returns \<open>False\<close> too, the loop goes on with the rule sets
  after it.
\<close>

theorem RuleTree_approve_request_or:
  "RuleTree_approve_request logger [] request s = (Inr False, s) \<and>
   ((\<forall>rset \<in> set tree. \<forall>s0. \<exists>s'.
        RuleSet_approve_request logger rset request s0 = (Inr False, s'))
      \<longrightarrow> fst (RuleTree_approve_request logger tree request s) = Inr False) \<and>
   (RuleTree_approve_request logger pre request s = (Inr False, s1) \<and>
    RuleSet_approve_request logger rset request s1 = (Inr True, s2) \<longrightarrow>
      RuleTree_approve_request logger (pre @ rset # post) request s = (Inr True, s2)) \<and>
   (RuleTree_approve_request logger pre request s = (Inr False, s1) \<and>
    RuleSet_approve_request logger rset request s1 = (Inr False, s2) \<longrightarrow>
      RuleTree_approve_request logger (pre @ rset # post) request s =
        RuleTree_approve_request logger post request s2)"
proof (intro conjI impI)
  show "RuleTree_approve_request logger [] request s = (Inr False, s)" by simp
next
  assume "\<forall>rset \<in> set tree. \<forall>s0. \<exists>s'.
    RuleSet_approve_request logger rset request s0 = (Inr False, s')"
  then show "fst (RuleTree_approve_request logger tree request s) = Inr False"
  proof (induction tree arbitrary: s)
    case Nil
    then show ?case by simp
  next
    case (Cons g tree)
    from Cons.prems obtain s'
      where "RuleSet_approve_request logger g request s = (Inr False, s')"
      by (meson list.set_intros(1))
    with Cons show ?case by simp
  qed
next
  assume "RuleTree_approve_request logger pre request s = (Inr False, s1) \<and>
    RuleSet_approve_request logger rset request s1 = (Inr True, s2)"
  then show "RuleTree_approve_request logger (pre @ rset # post) request s = (Inr True, s2)"
    by (simp add: RuleTree_approve_request_append)
next
  assume "RuleTree_approve_request logger pre request s = (Inr False, s1) \<and>
    RuleSet_approve_request logger rset request s1 = (Inr False, s2)"
  then show "RuleTree_approve_request logger (pre @ rset # post) request s =
        RuleTree_approve_request logger post request s2"
    by (simp add: RuleTree_approve_request_append)
qed

text \<open>
  The theorem at trees of call-counting stubs: in
  \<open>[[true, false], [true], [true]]\<close> the second rule set returns \<open>True\<close> at the third
  call and the third rule set is not evaluated; the two other trees return \<open>False\<close>.
\<close>

theorem RuleTree_approve_request_or_witness:
  "RuleTree_approve_request logger0 [[yes_rule, no_rule], [yes_rule], [yes_rule]] request0
     trace0 = (Inr True, \<lparr>calls = 3, logged = []\<rparr>) \<and>
   fst (RuleTree_approve_request logger0 [[no_rule], [yes_rule, no_rule]] request0 trace0) =
     Inr False \<and>
   RuleTree_approve_request logger0 [[no_rule], [no_rule, yes_rule]] request0 trace0 =
     (Inr False, \<lparr>calls = 2, logged = []\<rparr>)"
proof -
  have pre: "RuleTree_approve_request logger0 [[yes_rule, no_rule]] request0 trace0 =
      (Inr False, \<lparr>calls = 2, logged = []\<rparr>)"
    by (simp add: stub_defs)
  have hit: "RuleSet_approve_request logger0 [yes_rule] request0 \<lparr>calls = 2, logged = []\<rparr> =
      (Inr True, \<lparr>calls = 3, logged = []\<rparr>)"
    by (simp add: stub_defs)
  have all_no: "\<forall>rset \<in> set [[no_rule], [yes_rule, no_rule]]. \<forall>s0. \<exists>s'.
      RuleSet_approve_request logger0 rset request0 s0 = (Inr False, s')"
    by (simp add: stub_defs)
  have pre2: "RuleTree_approve_request logger0 [[no_rule]] request0 trace0 =
      (Inr False, \<lparr>calls = 1, logged = []\<rparr>)"
    by (simp add: stub_defs)
  have miss: "RuleSet_approve_request logger0 [no_rule, yes_rule] request0
      \<lparr>calls = 1, logged = []\<rparr> = (Inr False, \<lparr>calls = 2, logged = []\<rparr>)"
    by (simp add: stub_defs)
  show ?thesis
    using RuleTree_approve_request_or [where logger = logger0 and request = request0
        and s = trace0 and tree = "[[no_rule], [yes_rule, no_rule]]"
        and pre = "[[yes_rule, no_rule]]" and ?s1.0 = "\<lparr>calls = 2, logged = []\<rparr>"
        and rset = "[yes_rule]" and ?s2.0 = "\<lparr>calls = 3, logged = []\<rparr>"
        and post = "[[yes_rule]]"]
      RuleTree_approve_request_or [where logger = logger0 and request = request0
        and s = trace0 and tree = "[]"
        and pre = "[[no_rule]]" and ?s1.0 = "\<lparr>calls = 1, logged = []\<rparr>"
        and rset = "[no_rule, yes_rule]" and ?s2.0 = "\<lparr>calls = 2, logged = []\<rparr>"
        and post = "[]"]
      pre hit all_no pre2 miss
    by simp
qed




text \<open>
  Claim C4. When the engine's map has no tree for the request's type,
  \<open>RuleEngine.approve_request\<close> returns \<open>None\<close>, which is not \<open>False\<close>, and changes
  nothing. When it has a tree, the engine returns what the tree's \<open>approve_request\<close>
  returns, in the state the tree left; what leaves the tree leaves the engine.
\<close>

theorem RuleEngine_approve_request_dispatch:
  "(request_type request \<notin> fst ` set (rule_map eng) \<longrightarrow>
      RuleEngine_approve_request logger eng request s = (Inr None, s) \<and>
      fst (RuleEngine_approve_request logger eng request s) \<noteq> Inr (Some False)) \<and>
   (map_of (rule_map eng) (request_type request) = Some tree \<and>
    RuleTree_approve_request logger tree request s = (Inr b, s1) \<longrightarrow>
      RuleEngine_approve_request logger eng request s = (Inr (Some b), s1)) \<and>
   (map_of (rule_map eng) (request_type request) = Some tree \<and>
    RuleTree_approve_request logger tree request s = (Inl ex, s1) \<longrightarrow>
      RuleEngine_approve_request logger eng request s = (Inl ex, s1))"
proof (intro conjI impI)
  assume "request_type request \<notin> fst ` set (rule_map eng)"
  then have "map_of (rule_map eng) (request_type request) = None"
    by (simp add: map_of_eq_None_iff)
  then show "RuleEngine_approve_request logger eng request s = (Inr None, s)"
    and "fst (RuleEngine_approve_request logger eng request s) \<noteq> Inr (Some False)"
    by (simp_all add: RuleEngine_approve_request_def)
next
  assume "map_of (rule_map eng) (request_type request) = Some tree \<and>
    RuleTree_approve_request logger tree request s = (Inr b, s1)"
  then show "RuleEngine_approve_request logger eng request s = (Inr (Some b), s1)"
    by (simp add: RuleEngine_approve_request_def)
next
  assume "map_of (rule_map eng) (request_type request) = Some tree \<and>
    RuleTree_approve_request logger tree request s = (Inl ex, s1)"
  then show "RuleEngine_approve_request logger eng request s = (Inl ex, s1)"
    by (simp add: RuleEngine_approve_request_def)
qed

text \<open>
  The theorem at an engine with a decrypt tree only: a search request gets \<open>None\<close>,
  the decrypt request gets the tree's \<open>False\<close>.
\<close>

theorem RuleEngine_approve_request_dispatch_witness:
  "RuleEngine_approve_request logger0 \<lparr>rule_map = [(DECRYPT, [[yes_rule, no_rule]])]\<rparr>
     (request0\<lparr>request_type := SEARCH\<rparr>) trace0 = (Inr None, trace0) \<and>
   RuleEngine_approve_request logger0 \<lparr>rule_map = [(DECRYPT, [[yes_rule, no_rule]])]\<rparr>
     request0 trace0 = (Inr (Some False), \<lparr>calls = 2, logged = []\<rparr>)"
proof -
  have absent: "request_type (request0\<lparr>request_type := SEARCH\<rparr>)
      \<notin> fst ` set (rule_map \<lparr>rule_map = [(DECRYPT, [[yes_rule, no_rule]])]\<rparr>)"
    by simp
  have present: "map_of (rule_map \<lparr>rule_map = [(DECRYPT, [[yes_rule, no_rule]])]\<rparr>)
      (request_type request0) = Some [[yes_rule, no_rule]]"
    by (simp add: request0_def)
  have tree: "RuleTree_approve_request logger0 [[yes_rule, no_rule]] request0 trace0 =
      (Inr False, \<lparr>calls = 2, logged = []\<rparr>)"
    by (simp add: stub_defs)
  show ?thesis
    using RuleEngine_approve_request_dispatch
        [where request = "request0\<lparr>request_type := SEARCH\<rparr>"
          and eng = "\<lparr>rule_map = [(DECRYPT, [[yes_rule, no_rule]])]\<rparr>" and s = trace0
          and logger = logger0 and tree = "[]" and b = False and ?s1.0 = trace0
          and ex = "Exception ''''"]
      RuleEngine_approve_request_dispatch
        [where request = request0
          and eng = "\<lparr>rule_map = [(DECRYPT, [[yes_rule, no_rule]])]\<rparr>" and s = trace0
          and logger = logger0 and tree = "[[yes_rule, no_rule]]" and b = False
          and ?s1.0 = "\<lparr>calls = 2, logged = []\<rparr>" and ex = "Exception ''''"]
      absent present tree
    by simp
qed

section \<open>The quota hooks\<close>

text \<open>
  Claim C8. By default \<open>clear_quota\<close> does nothing. The default \<open>check_quota\<close>
  does not return \<open>True\<close>: its body is a docstring, so it returns \<open>None\<close>, for every
  plugin and every profile.
\<close>

theorem check_quota_default:
  "check_quota self prof w = (None, w) \<and>
   fst (check_quota self prof w) \<noteq> Some True \<and>
   clear_quota self prof w = ((), w)"
  by (simp add: check_quota_def clear_quota_def)

section \<open>Rule identifiers\<close>

lemmas sample_defs = json_dumps0_def quote_def md5_hexdigest0_def md5_table_def yes_entry_def
  RuleIdGenerator_init_def seen_incr_def dict_get_def a_date_def

text \<open>
  Claim C10, amended. An entry whose \<open>rule_id\<close> key is present with a falsy value (the
  empty string, \<open>None\<close>, \<open>0\<close>, \<open>False\<close>, an empty list or dict) is treated as one
  without identifier. When \<open>json.dumps\<close> encodes the entry, \<open>inject_rule_id\<close>
  replaces the value by a generated one, the digest of the encoding, or that digest, a
  dot and the sequence number when the digest is already recorded; a digest is never
  empty, so the value does change. When \<open>json.dumps\<close> raises on the entry, the
  exception leaves \<open>inject_rule_id\<close> and the entry is as it was.
\<close>

theorem inject_rule_id_falsy:
  "ent ''rule_id'' = Some v \<and> \<not> truthy v \<longrightarrow>
     (json_dumps ent = Inr d \<longrightarrow>
        (let h = md5_hexdigest d;
             rid = (if seen g (PStr h) \<noteq> None then h @ ''.'' @ str_nat (rule_seq g + 1) else h)
         in inject_rule_id json_dumps md5_hexdigest g ent =
              (None, \<lparr>seen = seen_incr (seen g) (PStr rid), rule_seq = rule_seq g + 1\<rparr>,
               ent(''rule_id'' \<mapsto> PStr rid)) \<and>
            (h \<noteq> [] \<longrightarrow> PStr rid \<noteq> v))) \<and>
     (json_dumps ent = Inl e \<longrightarrow>
        inject_rule_id json_dumps md5_hexdigest g ent =
          (Some e, \<lparr>seen = seen g, rule_seq = rule_seq g + 1\<rparr>, ent))"
proof (intro impI conjI)
  assume a: "ent ''rule_id'' = Some v \<and> \<not> truthy v"
  then have f: "\<not> truthy (dict_get ent ''rule_id'')"
    by (simp add: dict_get_def)
  have n: "s \<noteq> [] \<Longrightarrow> PStr s \<noteq> v" for s
    using a by (cases v) auto
  {
    assume "json_dumps ent = Inr d"
    with f n show "let h = md5_hexdigest d;
             rid = (if seen g (PStr h) \<noteq> None then h @ ''.'' @ str_nat (rule_seq g + 1) else h)
         in inject_rule_id json_dumps md5_hexdigest g ent =
              (None, \<lparr>seen = seen_incr (seen g) (PStr rid), rule_seq = rule_seq g + 1\<rparr>,
               ent(''rule_id'' \<mapsto> PStr rid)) \<and>
            (h \<noteq> [] \<longrightarrow> PStr rid \<noteq> v)"
      by (simp add: inject_rule_id_def Let_def)
  next
    assume "json_dumps ent = Inl e"
    with f show "inject_rule_id json_dumps md5_hexdigest g ent =
          (Some e, \<lparr>seen = seen g, rule_seq = rule_seq g + 1\<rparr>, ent)"
      by (simp add: inject_rule_id_def Let_def)
  }
qed

text \<open>
  The theorem at the entry \<open>{"rule": "yes", "rule_id": ""}\<close>, first of a load: the
  empty identifier is replaced by the MD5 digest of the entry's encoding.
\<close>

theorem inject_rule_id_falsy_witness:
  "inject_rule_id json_dumps0 md5_hexdigest0 RuleIdGenerator_init
     (yes_entry(''rule_id'' \<mapsto> PStr '''')) =
   (None, \<lparr>seen = [PStr ''29a249415541fab204dc4b2a1eb751e3'' \<mapsto> 1], rule_seq = 1\<rparr>,
    yes_entry(''rule_id'' \<mapsto> PStr ''29a249415541fab204dc4b2a1eb751e3''))"
proof -
  define d where \<open>d = ''{"rule":"yes","rule_id":""}''\<close>
  have falsy: "(yes_entry(''rule_id'' \<mapsto> PStr '''')) ''rule_id'' = Some (PStr '''') \<and>
      \<not> truthy (PStr '''')"
    by simp
  have encoded: "json_dumps0 (yes_entry(''rule_id'' \<mapsto> PStr '''')) = Inr d"
    by (simp add: sample_defs d_def)
  have digest: "md5_hexdigest0 d = ''29a249415541fab204dc4b2a1eb751e3''"
    by (simp add: sample_defs d_def)
  from inject_rule_id_falsy [where ent = "yes_entry(''rule_id'' \<mapsto> PStr '''')"
      and v = "PStr ''''" and json_dumps = json_dumps0 and md5_hexdigest = md5_hexdigest0
      and g = RuleIdGenerator_init and d = d and e = "TypeError ''''"] falsy encoded
  have "let h = md5_hexdigest0 d;
            rid = (if seen RuleIdGenerator_init (PStr h) \<noteq> None
                   then h @ ''.'' @ str_nat (rule_seq RuleIdGenerator_init + 1) else h)
        in inject_rule_id json_dumps0 md5_hexdigest0 RuleIdGenerator_init
             (yes_entry(''rule_id'' \<mapsto> PStr '''')) =
             (None, \<lparr>seen = seen_incr (seen RuleIdGenerator_init) (PStr rid),
                     rule_seq = rule_seq RuleIdGenerator_init + 1\<rparr>,
              (yes_entry(''rule_id'' \<mapsto> PStr ''''))(''rule_id'' \<mapsto> PStr rid)) \<and>
            (h \<noteq> [] \<longrightarrow> PStr rid \<noteq> PStr '''')"
    by blast
  then show ?thesis
    by (simp add: Let_def digest RuleIdGenerator_init_def seen_incr_def)
qed

text \<open>
  The claim as it is written fails: the entry
  \<open>{"rule": "yes", "rule_id": "", "param": 2024-01-01}\<close> has a falsy \<open>rule_id\<close>,
  but \<open>json.dumps\<close> raises \<open>TypeError\<close> on the date, and the identifier is not
  overwritten.
\<close>

theorem inject_rule_id_unserialisable:
  "(case inject_rule_id json_dumps0 md5_hexdigest0 RuleIdGenerator_init
          (yes_entry(''rule_id'' \<mapsto> PStr '''', ''param'' \<mapsto> a_date)) of
      (err, g, ent1) \<Rightarrow> (err, ent1 ''rule_id'')) =
   (Some (TypeError ''Object of type date is not JSON serializable''), Some (PStr ''''))"
  by (simp add: inject_rule_id_def Let_def sample_defs)

text \<open>
  Claim C6, amended. An entry whose \<open>rule_id\<close> is truthy (a non-empty string, for
  one) is left as it is: \<open>inject_rule_id\<close> returns the same entry and only counts
  the identifier. When the truthy value is a list, a dict or another unhashable
  object, recording it raises \<open>TypeError\<close>, and the entry is as it was too.
\<close>

theorem inject_rule_id_keeps:
  "ent ''rule_id'' = Some v \<and> truthy v \<longrightarrow>
     inject_rule_id json_dumps md5_hexdigest g ent =
       (if hashable v
        then (None, \<lparr>seen = seen_incr (seen g) (dict_key v), rule_seq = rule_seq g + 1\<rparr>, ent)
        else (Some (TypeError ''unhashable type''),
              \<lparr>seen = seen g, rule_seq = rule_seq g + 1\<rparr>, ent))"
  by (simp add: inject_rule_id_def dict_get_def Let_def)

text \<open>The theorem at the entry \<open>{"rule": "yes", "rule_id": "front-door"}\<close>.\<close>

theorem inject_rule_id_keeps_witness:
  "inject_rule_id json_dumps0 md5_hexdigest0 RuleIdGenerator_init
     (yes_entry(''rule_id'' \<mapsto> PStr ''front-door'')) =
   (None, \<lparr>seen = [PStr ''front-door'' \<mapsto> 1], rule_seq = 1\<rparr>,
    yes_entry(''rule_id'' \<mapsto> PStr ''front-door''))"
proof -
  have kept: "(yes_entry(''rule_id'' \<mapsto> PStr ''front-door'')) ''rule_id'' =
      Some (PStr ''front-door'') \<and> truthy (PStr ''front-door'')"
    by simp
  show ?thesis
    using inject_rule_id_keeps [where ent = "yes_entry(''rule_id'' \<mapsto> PStr ''front-door'')"
        and v = "PStr ''front-door''" and json_dumps = json_dumps0
        and md5_hexdigest = md5_hexdigest0 and g = RuleIdGenerator_init] kept
    by (simp add: RuleIdGenerator_init_def seen_incr_def)
qed

text \<open>
  The claim as it is written fails: the entry \<open>{"rule": "yes", "rule_id": ""}\<close>
  carries a \<open>rule_id\<close> key, and \<open>inject_rule_id\<close> overwrites its value.
\<close>

theorem inject_rule_id_empty_string:
  "(case inject_rule_id json_dumps0 md5_hexdigest0 RuleIdGenerator_init
          (yes_entry(''rule_id'' \<mapsto> PStr '''')) of
      (err, g, ent1) \<Rightarrow> (err, ent1 ''rule_id'')) =
   (None, Some (PStr ''29a249415541fab204dc4b2a1eb751e3''))"
  by (simp add: inject_rule_id_def Let_def sample_defs)

lemmas build_defs = RuleEngine_from_dict_def RulePlugin_from_dict_def get_by_name_def
  inject_rule_id_def RequestType_of_def registry0_def counting_stub_def entries_of_def Let_def

text \<open>
  Claim C5. Three loads, each of one rule set under \<open>decrypt\<close>, with the
  identifiers the entries have when the build has returned; \<open>9c39...3636\<close> is the
  MD5 digest of \<open>{"rule":"yes"}\<close>. Two equal entries without identifier get the
  digest and the digest followed by \<open>.2\<close>, as the claim says. But the identifiers of
  a load are not unique. An entry that carries the digest as its \<open>rule_id\<close> and
  comes after an equal entry without identifier shares the digest with it: a generated
  identifier is compared with the identifiers recorded before it only. And after an
  entry that carries the digest followed by \<open>.3\<close>, the second of two equal entries
  without identifier, third of the load, gets that same identifier: the digest with the
  sequence number appended is not looked up at all.
\<close>

theorem inject_rule_id_repeats:
  "(case RuleEngine_from_dict registry0 json_dumps0 md5_hexdigest0
          [(''decrypt'', [[yes_entry, yes_entry]])] of
      (res, info1) \<Rightarrow> (isl res, map (\<lambda>e. e ''rule_id'') (entries_of info1))) =
   (False, [Some (PStr ''9c391654df0fed88e67a23c485403636''),
            Some (PStr ''9c391654df0fed88e67a23c485403636.2'')]) \<and>
   (case RuleEngine_from_dict registry0 json_dumps0 md5_hexdigest0
          [(''decrypt'',
            [[yes_entry,
              yes_entry(''rule_id'' \<mapsto> PStr ''9c391654df0fed88e67a23c485403636'')]])] of
      (res, info1) \<Rightarrow> (isl res, map (\<lambda>e. e ''rule_id'') (entries_of info1))) =
   (False, [Some (PStr ''9c391654df0fed88e67a23c485403636''),
            Some (PStr ''9c391654df0fed88e67a23c485403636'')]) \<and>
   (case RuleEngine_from_dict registry0 json_dumps0 md5_hexdigest0
          [(''decrypt'',
            [[yes_entry(''rule_id'' \<mapsto> PStr ''9c391654df0fed88e67a23c485403636.3''),
              yes_entry, yes_entry]])] of
      (res, info1) \<Rightarrow> (isl res, map (\<lambda>e. e ''rule_id'') (entries_of info1))) =
   (False, [Some (PStr ''9c391654df0fed88e67a23c485403636.3''),
            Some (PStr ''9c391654df0fed88e67a23c485403636''),
            Some (PStr ''9c391654df0fed88e67a23c485403636.3'')])"
proof (intro conjI)
  show "(case RuleEngine_from_dict registry0 json_dumps0 md5_hexdigest0
          [(''decrypt'', [[yes_entry, yes_entry]])] of
      (res, info1) \<Rightarrow> (isl res, map (\<lambda>e. e ''rule_id'') (entries_of info1))) =
   (False, [Some (PStr ''9c391654df0fed88e67a23c485403636''),
            Some (PStr ''9c391654df0fed88e67a23c485403636.2'')])"
    by (simp add: build_defs sample_defs str_nat.simps digit_char_def)
  show "(case RuleEngine_from_dict registry0 json_dumps0 md5_hexdigest0
          [(''decrypt'',
            [[yes_entry,
              yes_entry(''rule_id'' \<mapsto> PStr ''9c391654df0fed88e67a23c485403636'')]])] of
      (res, info1) \<Rightarrow> (isl res, map (\<lambda>e. e ''rule_id'') (entries_of info1))) =
   (False, [Some (PStr ''9c391654df0fed88e67a23c485403636''),
            Some (PStr ''9c391654df0fed88e67a23c485403636'')])"
    by (simp add: build_defs sample_defs str_nat.simps digit_char_def)
  show "(case RuleEngine_from_dict registry0 json_dumps0 md5_hexdigest0
          [(''decrypt'',
            [[yes_entry(''rule_id'' \<mapsto> PStr ''9c391654df0fed88e67a23c485403636.3''),
              yes_entry, yes_entry]])] of
      (res, info1) \<Rightarrow> (isl res, map (\<lambda>e. e ''rule_id'') (entries_of info1))) =
   (False, [Some (PStr ''9c391654df0fed88e67a23c485403636.3''),
            Some (PStr ''9c391654df0fed88e67a23c485403636''),
            Some (PStr ''9c391654df0fed88e67a23c485403636.3'')])"
    by (simp add: build_defs sample_defs str_nat.simps digit_char_def)
qed

section \<open>Building in place\<close>

lemma touched_refl: "touched h e e"
  by (simp add: touched_def)

lemma touched_trans:
  assumes "touched h e e1" and "touched h e1 e2"
  shows "touched h e e2"
proof -
  from assms have "e2 ''rule'' = e ''rule'' \<or> e2 ''rule'' = None"
    unfolding touched_def by metis
  moreover have "e2 ''rule_id'' = e ''rule_id'' \<or>
      \<not> truthy_cell h (cell_get e ''rule_id'') \<and> (\<exists>s. e2 ''rule_id'' = Some (Val (PStr s)))"
  proof (cases "e1 ''rule_id'' = e ''rule_id''")
    case True
    then have "cell_get e1 ''rule_id'' = cell_get e ''rule_id''"
      by (simp add: cell_get_def)
    with assms(2) True show ?thesis
      unfolding touched_def by metis
  next
    case False
    with assms(1) have n: "\<not> truthy_cell h (cell_get e ''rule_id'')"
      and s: "\<exists>s. e1 ''rule_id'' = Some (Val (PStr s))"
      unfolding touched_def by blast+
    from assms(2) have "e2 ''rule_id'' = e1 ''rule_id'' \<or> (\<exists>s. e2 ''rule_id'' = Some (Val (PStr s)))"
      unfolding touched_def by blast
    with n s show ?thesis by metis
  qed
  moreover from assms have "\<forall>k. k \<noteq> ''rule'' \<and> k \<noteq> ''rule_id'' \<longrightarrow> e2 k = e k"
    unfolding touched_def by simp
  ultimately show ?thesis
    unfolding touched_def by blast
qed

lemma touched_cong:
  assumes "\<And>c. truthy_cell h1 c = truthy_cell h c"
  shows "touched h1 e e1 = touched h e e1"
  by (simp add: touched_def assms)

lemma built_touched: "built h e e1 \<Longrightarrow> touched h e e1"
  by (simp add: built_def touched_def split: if_splits)

lemma built_store_touched:
  assumes "built_store h V h1"
  shows "touched_store h V h1"
proof -
  have "touched h (h a) (h1 a)" for a
  proof (cases "a \<in> V")
    case True
    with assms have "built h (h a) (h1 a)"
      unfolding built_store_def by blast
    then show ?thesis by (rule built_touched)
  next
    case False
    with assms have "h1 a = h a"
      unfolding built_store_def by blast
    then show ?thesis by (simp add: touched_refl)
  qed
  with assms show ?thesis
    unfolding built_store_def touched_store_def by blast
qed

lemma touched_store_mono:
  "touched_store h V h1 \<Longrightarrow> V \<subseteq> W \<Longrightarrow> touched_store h W h1"
  unfolding touched_store_def by blast

lemma built_store_truthy:
  assumes "built_store h V h1"
  shows "truthy_cell h1 c = truthy_cell h c"
proof -
  have "(h1 a = Map.empty) = (h a = Map.empty)" for a
  proof (cases "a \<in> V")
    case True
    with assms have b: "built h (h a) (h1 a)"
      unfolding built_store_def by blast
    then have "h a ''rule'' \<noteq> None"
      unfolding built_def by blast
    then have "h a \<noteq> Map.empty" by auto
    moreover from b have "h1 a ''rule_id'' \<noteq> None"
    proof (cases "truthy_cell h (cell_get (h a) ''rule_id'')")
      case True
      then have "h a ''rule_id'' \<noteq> None"
        by (auto simp: cell_get_def split: option.splits)
      with b True show ?thesis
        unfolding built_def by simp
    next
      case False
      with b show ?thesis
        unfolding built_def by auto
    qed
    then have "h1 a \<noteq> Map.empty" by auto
    ultimately show ?thesis by simp
  next
    case False
    with assms show ?thesis
      unfolding built_store_def by simp
  qed
  then show ?thesis
    by (cases c) simp_all
qed

lemma inject_rule_id_in_place_frame:
  assumes "inject_rule_id_in_place json_dumps md5_hexdigest g h a = (r, g1, h1)"
  shows "b \<noteq> a \<Longrightarrow> h1 b = h b"
    and "k \<noteq> ''rule_id'' \<Longrightarrow> h1 a k = h a k"
    and "r \<noteq> None \<Longrightarrow> h1 = h"
    and "truthy_cell h (cell_get (h a) ''rule_id'') \<Longrightarrow> h1 = h"
    and "r = None \<Longrightarrow> \<not> truthy_cell h (cell_get (h a) ''rule_id'')
           \<Longrightarrow> \<exists>s. h1 a ''rule_id'' = Some (Val (PStr s))"
    and "h1 = h \<or> \<not> truthy_cell h (cell_get (h a) ''rule_id'') \<and>
           (\<exists>s. h1 a ''rule_id'' = Some (Val (PStr s)))"
  using assms
  by (auto simp: inject_rule_id_in_place_def Let_def
      split: if_splits sum.splits cell.splits)

lemma inject_rule_id_in_place_touched:
  assumes "inject_rule_id_in_place json_dumps md5_hexdigest g h a = (r, g1, h1)"
  shows "touched h (h b) (h1 b)"
proof (cases "b = a")
  case True
  from inject_rule_id_in_place_frame(6) [OF assms]
  have "h1 a ''rule_id'' = h a ''rule_id'' \<or>
      \<not> truthy_cell h (cell_get (h a) ''rule_id'') \<and> (\<exists>s. h1 a ''rule_id'' = Some (Val (PStr s)))"
    by auto
  moreover have "\<forall>k. k \<noteq> ''rule_id'' \<longrightarrow> h1 a k = h a k"
    using inject_rule_id_in_place_frame(2) [OF assms] by blast
  ultimately show ?thesis
    using True unfolding touched_def by simp
next
  case False
  then show ?thesis
    using inject_rule_id_in_place_frame(1) [OF assms] by (simp add: touched_refl)
qed

lemma RulePlugin_from_dict_in_place_frame:
  assumes "RulePlugin_from_dict_in_place new_plugin is_rule h a = (r, h1)"
  shows "b \<noteq> a \<Longrightarrow> h1 b = h b"
    and "k \<noteq> ''rule'' \<Longrightarrow> h1 a k = h a k"
    and "h1 a ''rule'' = h a ''rule'' \<or> h1 a ''rule'' = None"
    and "r = Inr p \<Longrightarrow> h a ''rule'' \<noteq> None \<and> h1 a ''rule'' = None"
  using assms
  by (auto simp: RulePlugin_from_dict_in_place_def Let_def
      split: option.splits sum.splits if_splits)

lemma RulePlugin_from_dict_in_place_touched:
  assumes "RulePlugin_from_dict_in_place new_plugin is_rule h a = (r, h1)"
  shows "touched h0 (h b) (h1 b)"
proof (cases "b = a")
  case True
  have "h1 a ''rule_id'' = h a ''rule_id''"
    using RulePlugin_from_dict_in_place_frame(2) [OF assms, of "''rule_id''"] by simp
  moreover have "\<forall>k. k \<noteq> ''rule'' \<longrightarrow> h1 a k = h a k"
    using RulePlugin_from_dict_in_place_frame(2) [OF assms] by blast
  ultimately show ?thesis
    using True RulePlugin_from_dict_in_place_frame(3) [OF assms] unfolding touched_def by simp
next
  case False
  then show ?thesis
    using RulePlugin_from_dict_in_place_frame(1) [OF assms] by (simp add: touched_refl)
qed

text \<open>One entry: the two calls of the loop body, on a store that a build has reached.\<close>

lemma visit_inject:
  assumes b: "built_store h0 V h"
    and i: "inject_rule_id_in_place json_dumps md5_hexdigest g h a = (r1, g1, h1)"
  shows "touched_store h0 (insert a V) h1"
proof -
  have t: "touched h0 (h0 c) (h1 c)" for c
  proof -
    from b have "touched h0 (h0 c) (h c)"
      using built_store_touched unfolding touched_store_def by blast
    moreover have "touched h (h c) (h1 c)"
      using i by (rule inject_rule_id_in_place_touched)
    then have "touched h0 (h c) (h1 c)"
      using touched_cong [of h h0, OF built_store_truthy [OF b]] by simp
    ultimately show ?thesis by (rule touched_trans)
  qed
  have "h1 c = h0 c" if "c \<notin> insert a V" for c
  proof -
    from that have "h1 c = h c"
      using inject_rule_id_in_place_frame(1) [OF i] by simp
    with that b show ?thesis
      unfolding built_store_def by simp
  qed
  with t show ?thesis
    unfolding touched_store_def by blast
qed

lemma visit_from_dict:
  assumes b: "built_store h0 V h"
    and i: "inject_rule_id_in_place json_dumps md5_hexdigest g h a = (r1, g1, h1)"
    and f: "RulePlugin_from_dict_in_place new_plugin is_rule h1 a = (r2, h2)"
  shows "touched_store h0 (insert a V) h2"
proof -
  from b i have t1: "touched_store h0 (insert a V) h1"
    by (rule visit_inject)
  have "touched h0 (h0 c) (h2 c)" for c
  proof -
    from t1 have "touched h0 (h0 c) (h1 c)"
      unfolding touched_store_def by blast
    moreover have "touched h0 (h1 c) (h2 c)"
      using f by (rule RulePlugin_from_dict_in_place_touched)
    ultimately show ?thesis by (rule touched_trans)
  qed
  moreover have "h2 c = h0 c" if "c \<notin> insert a V" for c
  proof -
    from that have "h2 c = h1 c"
      using RulePlugin_from_dict_in_place_frame(1) [OF f] by simp
    with that t1 show ?thesis
      unfolding touched_store_def by simp
  qed
  ultimately show ?thesis
    unfolding touched_store_def by blast
qed

lemma visit_built:
  assumes b: "built_store h0 V h"
    and i: "inject_rule_id_in_place json_dumps md5_hexdigest g h a = (None, g1, h1)"
    and f: "RulePlugin_from_dict_in_place new_plugin is_rule h1 a = (Inr p, h2)"
  shows "a \<notin> V" and "built_store h0 (insert a V) h2"
proof -
  note fr = RulePlugin_from_dict_in_place_frame [OF f]
  note ir = inject_rule_id_in_place_frame [OF i]
  from fr(4) have r1: "h1 a ''rule'' \<noteq> None" and r2: "h2 a ''rule'' = None"
    by simp_all
  from r1 ir(2) [of "''rule''"] have r: "h a ''rule'' \<noteq> None"
    by simp
  show v: "a \<notin> V"
  proof
    assume "a \<in> V"
    with b have "built h0 (h0 a) (h a)"
      unfolding built_store_def by blast
    then have "h a ''rule'' = None"
      unfolding built_def by blast
    with r show False by simp
  qed
  with b have e: "h a = h0 a"
    unfolding built_store_def by blast
  have tr: "truthy_cell h c = truthy_cell h0 c" for c
    using b by (rule built_store_truthy)
  have id2: "h2 a ''rule_id'' = h1 a ''rule_id''"
    using fr(2) [of "''rule_id''"] by simp
  have "built h0 (h0 a) (h2 a)"
    unfolding built_def
  proof (intro conjI)
    show "h0 a ''rule'' \<noteq> None"
      using r e by simp
    show "h2 a ''rule'' = None"
      by (rule r2)
    show "if truthy_cell h0 (cell_get (h0 a) ''rule_id'') then h2 a ''rule_id'' = h0 a ''rule_id''
       else \<exists>s. h2 a ''rule_id'' = Some (Val (PStr s))"
    proof (cases "truthy_cell h0 (cell_get (h0 a) ''rule_id'')")
      case True
      then have "truthy_cell h (cell_get (h a) ''rule_id'')"
        using tr e by simp
      then have "h1 = h" by (rule ir(4))
      with id2 e True show ?thesis by simp
    next
      case False
      then have "\<not> truthy_cell h (cell_get (h a) ''rule_id'')"
        using tr e by simp
      then have "\<exists>s. h1 a ''rule_id'' = Some (Val (PStr s))"
        using ir(5) by simp
      with id2 False show ?thesis by simp
    qed
    show "\<forall>k. k \<noteq> ''rule'' \<and> k \<noteq> ''rule_id'' \<longrightarrow> h2 a k = h0 a k"
      using fr(2) ir(2) e by simp
  qed
  moreover have "h2 c = h c" if "c \<noteq> a" for c
    using that fr(1) ir(1) by simp
  ultimately have "built h0 (h0 c) (h2 c)" if "c \<in> insert a V" for c
  proof (cases "c = a")
    case True
    with \<open>built h0 (h0 a) (h2 a)\<close> show ?thesis by simp
  next
    case False
    with that have "c \<in> V" by simp
    with b have "built h0 (h0 c) (h c)"
      unfolding built_store_def by blast
    with False \<open>\<And>c. c \<noteq> a \<Longrightarrow> h2 c = h c\<close> show ?thesis by simp
  qed
  moreover have "h2 c = h0 c" if "c \<notin> insert a V" for c
  proof -
    from that have "h2 c = h c"
      using fr(1) ir(1) by simp
    with that b show ?thesis
      unfolding built_store_def by simp
  qed
  ultimately show "built_store h0 (insert a V) h2"
    unfolding built_store_def by blast
qed

lemma RuleSet_from_list_in_place_frame:
  "built_store h0 V h \<Longrightarrow>
   RuleSet_from_list_in_place new_plugin is_rule json_dumps md5_hexdigest ruledata rgen h =
     (res, h1, rgen1) \<Longrightarrow>
   touched_store h0 (V \<union> set ruledata) h1 \<and>
   (\<forall>lst. res = Inr lst \<longrightarrow>
      distinct ruledata \<and> set ruledata \<inter> V = {} \<and> built_store h0 (V \<union> set ruledata) h1)"
proof (induction ruledata arbitrary: V h rgen res h1 rgen1)
  case Nil
  then show ?case
    by (auto dest: built_store_touched)
next
  case (Cons a ruledata)
  obtain r1 g1 hA
    where i: "inject_rule_id_in_place json_dumps md5_hexdigest rgen h a = (r1, g1, hA)"
    by (cases "inject_rule_id_in_place json_dumps md5_hexdigest rgen h a") auto
  have w: "insert a V \<subseteq> V \<union> set (a # ruledata)" by auto
  show ?case
  proof (cases r1)
    case (Some e)
    with i Cons.prems(2) have "res = Inl e" and "h1 = hA"
      by simp_all
    moreover from Cons.prems(1) i have "touched_store h0 (insert a V) hA"
      by (rule visit_inject)
    ultimately show ?thesis
      using touched_store_mono [OF _ w] by auto
  next
    case None
    obtain r2 hB
      where f: "RulePlugin_from_dict_in_place new_plugin is_rule hA a = (r2, hB)"
      by (cases "RulePlugin_from_dict_in_place new_plugin is_rule hA a") auto
    show ?thesis
    proof (cases r2)
      case (Inl e)
      with i None f Cons.prems(2) have "res = Inl e" and "h1 = hB"
        by simp_all
      moreover from Cons.prems(1) i f have "touched_store h0 (insert a V) hB"
        by (rule visit_from_dict)
      ultimately show ?thesis
        using touched_store_mono [OF _ w] by auto
    next
      case (Inr p)
      from Cons.prems(1) i [unfolded None] f [unfolded Inr]
      have v: "a \<notin> V" and b: "built_store h0 (insert a V) hB"
        by (rule visit_built)+
      obtain r3 hC g3
        where s: "RuleSet_from_list_in_place new_plugin is_rule json_dumps md5_hexdigest
            ruledata g1 hB = (r3, hC, g3)"
        by (cases "RuleSet_from_list_in_place new_plugin is_rule json_dumps md5_hexdigest
            ruledata g1 hB") auto
      from Cons.IH [OF b s]
      have t: "touched_store h0 (insert a V \<union> set ruledata) hC"
        and d: "\<forall>lst. r3 = Inr lst \<longrightarrow> distinct ruledata \<and> set ruledata \<inter> insert a V = {} \<and>
            built_store h0 (insert a V \<union> set ruledata) hC"
        by simp_all
      from i None f Inr s Cons.prems(2) have h1: "h1 = hC"
        and res: "res = (case r3 of Inl e \<Rightarrow> Inl e | Inr lst \<Rightarrow> Inr (p # lst))"
        by (auto split: sum.splits)
      have u: "insert a V \<union> set ruledata = V \<union> set (a # ruledata)" by auto
      have "touched_store h0 (V \<union> set (a # ruledata)) h1"
        using t h1 unfolding u by simp
      moreover have "distinct (a # ruledata) \<and> set (a # ruledata) \<inter> V = {} \<and>
          built_store h0 (V \<union> set (a # ruledata)) h1" if "res = Inr lst" for lst
      proof -
        from that res obtain lst1 where "r3 = Inr lst1"
          by (cases r3) simp_all
        with d have "distinct ruledata" and "set ruledata \<inter> insert a V = {}"
          and "built_store h0 (insert a V \<union> set ruledata) hC"
          by simp_all
        with v h1 show ?thesis
          unfolding u by auto
      qed
      ultimately show ?thesis by blast
    qed
  qed
qed

lemma RuleTree_from_list_in_place_frame:
  "built_store h0 V h \<Longrightarrow>
   RuleTree_from_list_in_place new_plugin is_rule json_dumps md5_hexdigest ruledefs rgen h =
     (res, h1, rgen1) \<Longrightarrow>
   touched_store h0 (V \<union> set (concat ruledefs)) h1 \<and>
   (\<forall>ini. res = Inr ini \<longrightarrow>
      distinct (concat ruledefs) \<and> set (concat ruledefs) \<inter> V = {} \<and>
      built_store h0 (V \<union> set (concat ruledefs)) h1)"
proof (induction ruledefs arbitrary: V h rgen res h1 rgen1)
  case Nil
  then show ?case
    by (auto dest: built_store_touched)
next
  case (Cons ent ruledefs)
  obtain r1 hA g1
    where s: "RuleSet_from_list_in_place new_plugin is_rule json_dumps md5_hexdigest ent rgen h =
        (r1, hA, g1)"
    by (cases "RuleSet_from_list_in_place new_plugin is_rule json_dumps md5_hexdigest ent rgen h")
      auto
  from RuleSet_from_list_in_place_frame [OF Cons.prems(1) s]
  have t1: "touched_store h0 (V \<union> set ent) hA"
    and d1: "\<forall>lst. r1 = Inr lst \<longrightarrow>
        distinct ent \<and> set ent \<inter> V = {} \<and> built_store h0 (V \<union> set ent) hA"
    by simp_all
  have w: "V \<union> set ent \<subseteq> V \<union> set (concat (ent # ruledefs))" by auto
  show ?case
  proof (cases r1)
    case (Inl e)
    with s Cons.prems(2) have "res = Inl e" and "h1 = hA"
      by simp_all
    with t1 show ?thesis
      using touched_store_mono [OF _ w] by auto
  next
    case (Inr rset)
    with d1 have de: "distinct ent" and dv: "set ent \<inter> V = {}"
      and b: "built_store h0 (V \<union> set ent) hA"
      by simp_all
    obtain r2 hB g2
      where r: "RuleTree_from_list_in_place new_plugin is_rule json_dumps md5_hexdigest
          ruledefs g1 hA = (r2, hB, g2)"
      by (cases "RuleTree_from_list_in_place new_plugin is_rule json_dumps md5_hexdigest
          ruledefs g1 hA") auto
    from Cons.IH [OF b r]
    have t: "touched_store h0 (V \<union> set ent \<union> set (concat ruledefs)) hB"
      and d: "\<forall>ini. r2 = Inr ini \<longrightarrow> distinct (concat ruledefs) \<and>
          set (concat ruledefs) \<inter> (V \<union> set ent) = {} \<and>
          built_store h0 (V \<union> set ent \<union> set (concat ruledefs)) hB"
      by simp_all
    from s Inr r Cons.prems(2) have h1: "h1 = hB"
      and res: "res = (case r2 of Inl e \<Rightarrow> Inl e | Inr ini \<Rightarrow> Inr (rset # ini))"
      by (auto split: sum.splits)
    have u: "V \<union> set ent \<union> set (concat ruledefs) = V \<union> set (concat (ent # ruledefs))"
      by auto
    have "touched_store h0 (V \<union> set (concat (ent # ruledefs))) h1"
      using t h1 unfolding u by simp
    moreover have "distinct (concat (ent # ruledefs)) \<and> set (concat (ent # ruledefs)) \<inter> V = {} \<and>
        built_store h0 (V \<union> set (concat (ent # ruledefs))) h1" if "res = Inr ini" for ini
    proof -
      from that res obtain ini1 where "r2 = Inr ini1"
        by (cases r2) simp_all
      with d have d2: "distinct (concat ruledefs)"
        and i2: "set (concat ruledefs) \<inter> (V \<union> set ent) = {}"
        and b2: "built_store h0 (V \<union> set ent \<union> set (concat ruledefs)) hB"
        by simp_all
      from de d2 i2 have "distinct (concat (ent # ruledefs))"
        by auto
      moreover from dv i2 have "set (concat (ent # ruledefs)) \<inter> V = {}"
        by auto
      ultimately show ?thesis
        using b2 h1 unfolding u by simp
    qed
    ultimately show ?thesis by blast
  qed
qed

lemma from_dict_loop_in_place_frame:
  "built_store h0 V h \<Longrightarrow>
   from_dict_loop_in_place new_plugin is_rule json_dumps md5_hexdigest info rgen rmap h =
     (res, h1) \<Longrightarrow>
   touched_store h0 (V \<union> set (addresses_of info)) h1 \<and>
   (\<forall>rmap1. res = Inr rmap1 \<longrightarrow>
      distinct (addresses_of info) \<and> set (addresses_of info) \<inter> V = {} \<and>
      built_store h0 (V \<union> set (addresses_of info)) h1)"
proof (induction info arbitrary: V h rgen rmap res h1)
  case Nil
  then show ?case
    by (auto simp: addresses_of_def dest: built_store_touched)
next
  case (Cons item info)
  obtain rtype treedef where item: "item = (rtype, treedef)" by (cases item)
  have a: "addresses_of (item # info) = concat treedef @ addresses_of info"
    by (simp add: addresses_of_def item)
  have w0: "V \<subseteq> V \<union> set (addresses_of (item # info))" by auto
  show ?case
  proof (cases "RequestType_of rtype")
    case (Inl e)
    with item Cons.prems(2) have "res = Inl e" and "h1 = h"
      by simp_all
    with Cons.prems(1) show ?thesis
      using touched_store_mono [OF built_store_touched w0] by auto
  next
    case (Inr rt)
    obtain r1 hA g1
      where t: "RuleTree_from_list_in_place new_plugin is_rule json_dumps md5_hexdigest
          treedef rgen h = (r1, hA, g1)"
      by (cases "RuleTree_from_list_in_place new_plugin is_rule json_dumps md5_hexdigest
          treedef rgen h") auto
    from RuleTree_from_list_in_place_frame [OF Cons.prems(1) t]
    have t1: "touched_store h0 (V \<union> set (concat treedef)) hA"
      and d1: "\<forall>ini. r1 = Inr ini \<longrightarrow> distinct (concat treedef) \<and>
          set (concat treedef) \<inter> V = {} \<and> built_store h0 (V \<union> set (concat treedef)) hA"
      by simp_all
    have w: "V \<union> set (concat treedef) \<subseteq> V \<union> set (addresses_of (item # info))"
      unfolding a by auto
    show ?thesis
    proof (cases r1)
      case (Inl e)
      with item Inr t Cons.prems(2) have "res = Inl e" and "h1 = hA"
        by simp_all
      with t1 show ?thesis
        using touched_store_mono [OF _ w] by auto
    next
      case (Inr tree)
      with d1 have de: "distinct (concat treedef)" and dv: "set (concat treedef) \<inter> V = {}"
        and b: "built_store h0 (V \<union> set (concat treedef)) hA"
        by simp_all
      from item \<open>RequestType_of rtype = Inr rt\<close> t Inr Cons.prems(2)
      have r: "from_dict_loop_in_place new_plugin is_rule json_dumps md5_hexdigest info g1
          (AList.update rt tree rmap) hA = (res, h1)"
        by simp
      have u: "V \<union> set (concat treedef) \<union> set (addresses_of info) =
          V \<union> set (addresses_of (item # info))"
        unfolding a by auto
      from Cons.IH [OF b r]
      have t2: "touched_store h0 (V \<union> set (concat treedef) \<union> set (addresses_of info)) h1"
        and d2: "\<forall>rmap1. res = Inr rmap1 \<longrightarrow> distinct (addresses_of info) \<and>
            set (addresses_of info) \<inter> (V \<union> set (concat treedef)) = {} \<and>
            built_store h0 (V \<union> set (concat treedef) \<union> set (addresses_of info)) h1"
        by simp_all
      have "touched_store h0 (V \<union> set (addresses_of (item # info))) h1"
        using t2 unfolding u by simp
      moreover have "distinct (addresses_of (item # info)) \<and>
          set (addresses_of (item # info)) \<inter> V = {} \<and>
          built_store h0 (V \<union> set (addresses_of (item # info))) h1" if "res = Inr rmap1" for rmap1
      proof -
        from that d2 have d3: "distinct (addresses_of info)"
          and i3: "set (addresses_of info) \<inter> (V \<union> set (concat treedef)) = {}"
          and b3: "built_store h0 (V \<union> set (concat treedef) \<union> set (addresses_of info)) h1"
          by simp_all
        from de d3 i3 have "distinct (concat treedef @ addresses_of info)"
          by auto
        moreover from dv i3 have "set (concat treedef @ addresses_of info) \<inter> V = {}"
          by auto
        ultimately show ?thesis
          using b3 unfolding u a by simp
      qed
      ultimately show ?thesis by blast
    qed
  qed
qed

lemmas in_place_defs = RuleEngine_from_dict_in_place_def RulePlugin_from_dict_in_place_def
  inject_rule_id_in_place_def cell_get_def new_plugin0_def is_rule0_def json_dumps_in_place0_def
  store0_def RequestType_of_def addresses_of_def Let_def

text \<open>
  Claim C7, amended. Building an engine, whether the build returns or raises, changes
  the dict objects of the configuration in two ways only: the \<open>rule\<close> key of an
  entry it has processed is removed (\<open>from_dict\<close> pops it), and \<open>rule_id\<close> is
  set to a generated string where none, or one that is not truthy, was present. Every
  other key of an entry has the value it had, the same plain value or the same object,
  and a dict object that is not an entry of the policy is not changed. When the build
  returns, no dict object is listed twice as an entry, and every entry has lost its
  \<open>rule\<close> key and has a \<open>rule_id\<close>, its own when that was truthy.
\<close>

theorem RuleEngine_from_dict_frame:
  "(case RuleEngine_from_dict_in_place new_plugin is_rule json_dumps md5_hexdigest h info of
      (res, h1) \<Rightarrow>
        touched_store h (set (addresses_of info)) h1 \<and>
        (\<forall>rmap. res = Inr rmap \<longrightarrow>
           distinct (addresses_of info) \<and> built_store h (set (addresses_of info)) h1))"
proof -
  obtain res h1
    where b: "from_dict_loop_in_place new_plugin is_rule json_dumps md5_hexdigest info
        RuleIdGenerator_init [] h = (res, h1)"
    by (cases "from_dict_loop_in_place new_plugin is_rule json_dumps md5_hexdigest info
        RuleIdGenerator_init [] h") auto
  have "built_store h {} h"
    by (simp add: built_store_def)
  from from_dict_loop_in_place_frame [OF this b]
  have "touched_store h (set (addresses_of info)) h1 \<and>
      (\<forall>rmap. res = Inr rmap \<longrightarrow>
         distinct (addresses_of info) \<and> built_store h (set (addresses_of info)) h1)"
    by simp
  with b show ?thesis
    by (simp add: RuleEngine_from_dict_in_place_def)
qed

text \<open>
  The theorem at three policies over the sample store. The first lists the objects 0
  and 1 and builds: both lose \<open>rule\<close>, object 1 gets the MD5 digest of
  \<open>{"rule":"no"}\<close>, and \<open>param\<close> of object 0 is still object 1, which has
  changed. The second lists the objects 1, 2 and 3: the class of object 2 is not
  registered, the build raises \<open>KeyError\<close> after it has given object 2 an
  identifier and removed its \<open>rule\<close> key, and object 3 is as it was. The third
  lists object 3 under two request types: the second time it has no \<open>rule\<close> key,
  and the build raises \<open>AssertionError\<close>.
\<close>

theorem RuleEngine_from_dict_frame_witness:
  "(case RuleEngine_from_dict_in_place new_plugin0 is_rule0 json_dumps_in_place0 md5_hexdigest0
          store0 [(''decrypt'', [[0, 1]])] of
      (res, h1) \<Rightarrow>
        res = Inr [(DECRYPT, [[''yes'', ''no'']])] \<and>
        map (h1 0) [''rule'', ''rule_id'', ''param''] =
          [None, Some (Val (PStr ''front-door'')), Some (Ref 1)] \<and>
        map (h1 1) [''rule'', ''rule_id'', ''param''] =
          [None, Some (Val (PStr ''6ac0b17e6dbb3e9282a5e92082c2a7e8'')), None] \<and>
        built_store store0 {0, 1} h1) \<and>
   (case RuleEngine_from_dict_in_place new_plugin0 is_rule0 json_dumps_in_place0 md5_hexdigest0
          store0 [(''decrypt'', [[1, 2, 3]])] of
      (res, h1) \<Rightarrow>
        res = Inl (KeyError ''missing'') \<and>
        map (h1 2) [''rule'', ''rule_id'', ''param''] =
          [None, Some (Val (PStr ''7346811cfb5ca2337a9211e4ee29c39f'')), None] \<and>
        h1 3 = store0 3 \<and>
        touched_store store0 {1, 2, 3} h1) \<and>
   (case RuleEngine_from_dict_in_place new_plugin0 is_rule0 json_dumps_in_place0 md5_hexdigest0
          store0 [(''decrypt'', [[3]]), (''search'', [[3]])] of
      (res, h1) \<Rightarrow>
        res = Inl (AssertionError ''Rule entries must have a plugin name'') \<and>
        map (h1 3) [''rule'', ''rule_id'', ''param''] =
          [None, Some (Val (PStr ''9c391654df0fed88e67a23c485403636'')), None] \<and>
        touched_store store0 {3} h1)"
proof (intro conjI)
  let ?build = "RuleEngine_from_dict_in_place new_plugin0 is_rule0 json_dumps_in_place0
      md5_hexdigest0 store0"
  obtain res h1 where b: "?build [(''decrypt'', [[0, 1]])] = (res, h1)"
    by (cases "?build [(''decrypt'', [[0, 1]])]")
  have "fst (?build [(''decrypt'', [[0, 1]])]) = Inr [(DECRYPT, [[''yes'', ''no'']])]"
    by (simp add: in_place_defs sample_defs)
  moreover have "map (snd (?build [(''decrypt'', [[0, 1]])]) 0) [''rule'', ''rule_id'', ''param''] =
      [None, Some (Val (PStr ''front-door'')), Some (Ref 1)]"
    by (simp add: in_place_defs sample_defs)
  moreover have "map (snd (?build [(''decrypt'', [[0, 1]])]) 1) [''rule'', ''rule_id'', ''param''] =
      [None, Some (Val (PStr ''6ac0b17e6dbb3e9282a5e92082c2a7e8'')), None]"
    by (simp add: in_place_defs sample_defs)
  moreover have "set (addresses_of [(''decrypt'', [[0, 1]])]) = {0, 1}"
    by (simp add: addresses_of_def)
  moreover note RuleEngine_from_dict_frame [where new_plugin = new_plugin0 and is_rule = is_rule0
      and json_dumps = json_dumps_in_place0 and md5_hexdigest = md5_hexdigest0 and h = store0
      and info = "[(''decrypt'', [[0, 1]])]"]
  ultimately show "case ?build [(''decrypt'', [[0, 1]])] of
      (res, h1) \<Rightarrow>
        res = Inr [(DECRYPT, [[''yes'', ''no'']])] \<and>
        map (h1 0) [''rule'', ''rule_id'', ''param''] =
          [None, Some (Val (PStr ''front-door'')), Some (Ref 1)] \<and>
        map (h1 1) [''rule'', ''rule_id'', ''param''] =
          [None, Some (Val (PStr ''6ac0b17e6dbb3e9282a5e92082c2a7e8'')), None] \<and>
        built_store store0 {0, 1} h1"
    unfolding b by simp
next
  let ?build = "RuleEngine_from_dict_in_place new_plugin0 is_rule0 json_dumps_in_place0
      md5_hexdigest0 store0"
  obtain res h1 where b: "?build [(''decrypt'', [[1, 2, 3]])] = (res, h1)"
    by (cases "?build [(''decrypt'', [[1, 2, 3]])]")
  have "fst (?build [(''decrypt'', [[1, 2, 3]])]) = Inl (KeyError ''missing'')"
    by (simp add: in_place_defs sample_defs)
  moreover have "map (snd (?build [(''decrypt'', [[1, 2, 3]])]) 2) [''rule'', ''rule_id'', ''param''] =
      [None, Some (Val (PStr ''7346811cfb5ca2337a9211e4ee29c39f'')), None]"
    by (simp add: in_place_defs sample_defs)
  moreover have "snd (?build [(''decrypt'', [[1, 2, 3]])]) 3 = store0 3"
    by (simp add: in_place_defs sample_defs)
  moreover have "set (addresses_of [(''decrypt'', [[1, 2, 3]])]) = {1, 2, 3}"
    by (simp add: addresses_of_def)
  moreover note RuleEngine_from_dict_frame [where new_plugin = new_plugin0 and is_rule = is_rule0
      and json_dumps = json_dumps_in_place0 and md5_hexdigest = md5_hexdigest0 and h = store0
      and info = "[(''decrypt'', [[1, 2, 3]])]"]
  ultimately show "case ?build [(''decrypt'', [[1, 2, 3]])] of
      (res, h1) \<Rightarrow>
        res = Inl (KeyError ''missing'') \<and>
        map (h1 2) [''rule'', ''rule_id'', ''param''] =
          [None, Some (Val (PStr ''7346811cfb5ca2337a9211e4ee29c39f'')), None] \<and>
        h1 3 = store0 3 \<and>
        touched_store store0 {1, 2, 3} h1"
    unfolding b by simp
next
  let ?build = "RuleEngine_from_dict_in_place new_plugin0 is_rule0 json_dumps_in_place0
      md5_hexdigest0 store0"
  obtain res h1 where b: "?build [(''decrypt'', [[3]]), (''search'', [[3]])] = (res, h1)"
    by (cases "?build [(''decrypt'', [[3]]), (''search'', [[3]])]")
  have "fst (?build [(''decrypt'', [[3]]), (''search'', [[3]])]) =
      Inl (AssertionError ''Rule entries must have a plugin name'')"
    by (simp add: in_place_defs sample_defs)
  moreover have "map (snd (?build [(''decrypt'', [[3]]), (''search'', [[3]])]) 3)
      [''rule'', ''rule_id'', ''param''] =
      [None, Some (Val (PStr ''9c391654df0fed88e67a23c485403636'')), None]"
    by (simp add: in_place_defs sample_defs)
  moreover have "set (addresses_of [(''decrypt'', [[3]]), (''search'', [[3]])]) = {3}"
    by (simp add: addresses_of_def)
  moreover note RuleEngine_from_dict_frame [where new_plugin = new_plugin0 and is_rule = is_rule0
      and json_dumps = json_dumps_in_place0 and md5_hexdigest = md5_hexdigest0 and h = store0
      and info = "[(''decrypt'', [[3]]), (''search'', [[3]])]"]
  ultimately show "case ?build [(''decrypt'', [[3]]), (''search'', [[3]])] of
      (res, h1) \<Rightarrow>
        res = Inl (AssertionError ''Rule entries must have a plugin name'') \<and>
        map (h1 3) [''rule'', ''rule_id'', ''param''] =
          [None, Some (Val (PStr ''9c391654df0fed88e67a23c485403636'')), None] \<and>
        touched_store store0 {3} h1"
    unfolding b by simp
qed

text \<open>
  The claim as it is written fails: building from a policy that lists object 3,
  \<open>{"rule": "yes"}\<close>, returns and leaves the object without its \<open>rule\<close> key.
\<close>

theorem RuleEngine_from_dict_pops_rule:
  "(case RuleEngine_from_dict_in_place new_plugin0 is_rule0 json_dumps_in_place0 md5_hexdigest0
          store0 [(''decrypt'', [[3]])] of
      (res, h1) \<Rightarrow> (isl res, store0 3 ''rule'', h1 3 ''rule'')) =
   (False, Some (Val (PStr ''yes'')), None)"
  by (simp add: in_place_defs sample_defs)

section \<open>Separate entries: the build on values is the build in place\<close>

lemma plain_upd: "plain (ent(k \<mapsto> Val v)) = (plain ent)(k \<mapsto> v)"
  by (rule ext) (simp add: plain_def)

lemma plain_del: "plain (ent(k := None)) = (plain ent)(k := None)"
  by (rule ext) (simp add: plain_def)

lemma plain_object_upd: "plain_object ent \<Longrightarrow> plain_object (ent(k \<mapsto> Val v))"
  by (simp add: plain_object_def)

lemma plain_object_del: "plain_object ent \<Longrightarrow> plain_object (ent(k := None))"
  by (simp add: plain_object_def)

lemma plain_object_get:
  assumes "plain_object ent"
  shows "cell_get ent k = Val (dict_get (plain ent) k)"
proof (cases "ent k")
  case None
  then show ?thesis
    by (simp add: cell_get_def dict_get_def plain_def)
next
  case (Some c)
  with assms obtain v where "c = Val v"
    unfolding plain_object_def by blast
  with Some show ?thesis
    by (simp add: cell_get_def dict_get_def plain_def)
qed

lemma plain_object_lookup:
  assumes "plain_object ent"
  shows "plain ent k = (case ent k of None \<Rightarrow> None | Some c \<Rightarrow> Some (dict_get (plain ent) k))"
    and "ent k = Some c \<Longrightarrow> c = Val (dict_get (plain ent) k)"
proof -
  show "ent k = Some c \<Longrightarrow> c = Val (dict_get (plain ent) k)"
    using plain_object_get [OF assms, of k] by (simp add: cell_get_def)
  show "plain ent k = (case ent k of None \<Rightarrow> None | Some c \<Rightarrow> Some (dict_get (plain ent) k))"
  proof (cases "ent k")
    case None
    then show ?thesis by (simp add: plain_def)
  next
    case (Some c)
    with assms obtain v where "c = Val v"
      unfolding plain_object_def by blast
    with Some show ?thesis
      by (simp add: plain_def dict_get_def)
  qed
qed

lemma inject_rule_id_in_place_plain:
  assumes p: "plain_object (h a)"
    and i: "inject_rule_id_in_place (\<lambda>h a. json_dumps (plain (h a))) md5_hexdigest g h a =
      (r, g1, h1)"
  shows "inject_rule_id json_dumps md5_hexdigest g (plain (h a)) = (r, g1, plain (h1 a))"
    and "plain_object (h1 a)"
proof -
  note c = plain_object_get [OF p, of "''rule_id''"]
  show "inject_rule_id json_dumps md5_hexdigest g (plain (h a)) = (r, g1, plain (h1 a))"
    using i unfolding inject_rule_id_in_place_def inject_rule_id_def Let_def c
    by (auto simp: plain_upd split: if_splits sum.splits)
  show "plain_object (h1 a)"
    using i p unfolding inject_rule_id_in_place_def Let_def c
    by (auto simp: plain_object_upd split: if_splits sum.splits)
qed

lemma RulePlugin_from_dict_in_place_plain:
  assumes p: "plain_object (h a)"
    and f: "RulePlugin_from_dict_in_place (registry_new_plugin registry)
      (\<lambda>p. cls_is_rule (plugin_cls p)) h a = (r, h1)"
  shows "RulePlugin_from_dict registry (plain (h a)) = (r, plain (h1 a))"
    and "plain_object (h1 a)"
proof -
  show "plain_object (h1 a)"
    using f p unfolding RulePlugin_from_dict_in_place_def Let_def
    by (auto simp: plain_object_del split: option.splits sum.splits if_splits)
  show "RulePlugin_from_dict registry (plain (h a)) = (r, plain (h1 a))"
  proof (cases "h a ''rule''")
    case None
    then have "plain (h a) ''rule'' = None"
      by (simp add: plain_def)
    with None f show ?thesis
      by (simp add: RulePlugin_from_dict_in_place_def RulePlugin_from_dict_def)
  next
    case (Some c)
    with p obtain v where c: "c = Val v"
      unfolding plain_object_def by blast
    with Some have l: "plain (h a) ''rule'' = Some v"
      by (simp add: plain_def)
    have d: "plain ((h(a := (h a)(''rule'' := None))) a) = (plain (h a))(''rule'' := None)"
      by (simp add: plain_del)
    show ?thesis
    proof (cases "get_by_name registry v")
      case (Inl e)
      with f Some c l show ?thesis
        by (auto simp: RulePlugin_from_dict_in_place_def RulePlugin_from_dict_def Let_def
            registry_new_plugin_def plain_del)
    next
      case (Inr cl)
      show ?thesis
      proof (cases "cls_init cl ((plain (h a))(''rule'' := None))")
        case None
        with f Some c l Inr d show ?thesis
          by (auto simp: RulePlugin_from_dict_in_place_def RulePlugin_from_dict_def Let_def
              registry_new_plugin_def plain_del split: if_splits)
      next
        case (Some e)
        with f \<open>h a ''rule'' = Some c\<close> c l Inr d show ?thesis
          by (auto simp: RulePlugin_from_dict_in_place_def RulePlugin_from_dict_def Let_def
              registry_new_plugin_def plain_del)
      qed
    qed
  qed
qed


lemma RuleSet_from_list_in_place_outside:
  assumes "RuleSet_from_list_in_place new_plugin is_rule json_dumps md5_hexdigest ruledata rgen h =
      (res, h1, rgen1)"
    and "b \<notin> set ruledata"
  shows "h1 b = h b"
proof -
  have "built_store h {} h"
    by (simp add: built_store_def)
  from RuleSet_from_list_in_place_frame [OF this assms(1)] assms(2) show ?thesis
    unfolding touched_store_def by simp
qed

lemma RuleTree_from_list_in_place_outside:
  assumes "RuleTree_from_list_in_place new_plugin is_rule json_dumps md5_hexdigest ruledefs rgen h =
      (res, h1, rgen1)"
    and "b \<notin> set (concat ruledefs)"
  shows "h1 b = h b"
proof -
  have "built_store h {} h"
    by (simp add: built_store_def)
  from RuleTree_from_list_in_place_frame [OF this assms(1)] assms(2) show ?thesis
    unfolding touched_store_def by simp
qed

lemma from_dict_loop_in_place_outside:
  assumes "from_dict_loop_in_place new_plugin is_rule json_dumps md5_hexdigest info rgen rmap h =
      (res, h1)"
    and "b \<notin> set (addresses_of info)"
  shows "h1 b = h b"
proof -
  have "built_store h {} h"
    by (simp add: built_store_def)
  from from_dict_loop_in_place_frame [OF this assms(1)] assms(2) show ?thesis
    unfolding touched_store_def by simp
qed

lemma RuleSet_from_list_in_place_values:
  "distinct ruledata \<Longrightarrow> \<forall>a \<in> set ruledata. plain_object (h a) \<Longrightarrow>
   RuleSet_from_list_in_place (registry_new_plugin registry) (\<lambda>p. cls_is_rule (plugin_cls p))
     (\<lambda>h a. json_dumps (plain (h a))) md5_hexdigest ruledata rgen h = (res, h1, rgen1) \<Longrightarrow>
   RuleSet_from_list registry json_dumps md5_hexdigest (map (\<lambda>a. plain (h a)) ruledata) rgen =
     (res, map (\<lambda>a. plain (h1 a)) ruledata, rgen1) \<and>
   (\<forall>a \<in> set ruledata. plain_object (h1 a))"
proof (induction ruledata arbitrary: h rgen res h1 rgen1)
  case Nil
  then show ?case by simp
next
  case (Cons a ruledata)
  from Cons.prems(1) have na: "a \<notin> set ruledata" and di: "distinct ruledata"
    by simp_all
  from Cons.prems(2) have pa: "plain_object (h a)"
    by simp
  obtain r1 g1 hA
    where i: "inject_rule_id_in_place (\<lambda>h a. json_dumps (plain (h a))) md5_hexdigest rgen h a =
        (r1, g1, hA)"
    by (cases "inject_rule_id_in_place (\<lambda>h a. json_dumps (plain (h a))) md5_hexdigest rgen h a")
      auto
  note iv = inject_rule_id_in_place_plain [OF pa i]
  have iA: "hA b = h b" if "b \<noteq> a" for b
    using that inject_rule_id_in_place_frame(1) [OF i] by simp
  have sameA: "hA b = h b" if "b \<in> set ruledata" for b
  proof -
    from that na have "b \<noteq> a" by auto
    then show ?thesis by (rule iA)
  qed
  have restA: "map (\<lambda>a. plain (hA a)) ruledata = map (\<lambda>a. plain (h a)) ruledata"
    by (rule map_cong [OF refl]) (simp add: sameA)
  have pA: "\<forall>b \<in> set ruledata. plain_object (hA b)"
    using Cons.prems(2) sameA by simp
  show ?case
  proof (cases r1)
    case (Some e)
    with i Cons.prems(3) have "res = Inl e" and "h1 = hA" and "rgen1 = g1"
      by simp_all
    with iv Some restA pA show ?thesis
      by simp
  next
    case None
    obtain r2 hB
      where f: "RulePlugin_from_dict_in_place (registry_new_plugin registry)
          (\<lambda>p. cls_is_rule (plugin_cls p)) hA a = (r2, hB)"
      by (cases "RulePlugin_from_dict_in_place (registry_new_plugin registry)
          (\<lambda>p. cls_is_rule (plugin_cls p)) hA a") auto
    note fv = RulePlugin_from_dict_in_place_plain [OF iv(2) f]
    have fB: "hB b = hA b" if "b \<noteq> a" for b
      using that RulePlugin_from_dict_in_place_frame(1) [OF f] by simp
    have sameB: "hB b = h b" if "b \<in> set ruledata" for b
    proof -
      from that na have "b \<noteq> a" by auto
      then have "hB b = hA b" by (rule fB)
      with that show ?thesis by (simp add: sameA)
    qed
    have restB: "map (\<lambda>a. plain (hB a)) ruledata = map (\<lambda>a. plain (h a)) ruledata"
      by (rule map_cong [OF refl]) (simp add: sameB)
    have pB: "\<forall>b \<in> set ruledata. plain_object (hB b)"
      using Cons.prems(2) sameB by simp
    show ?thesis
    proof (cases r2)
      case (Inl e)
      with i None f Cons.prems(3) have "res = Inl e" and "h1 = hB" and "rgen1 = g1"
        by simp_all
      with iv fv None Inl restB pB show ?thesis
        by simp
    next
      case (Inr p)
      obtain r3 hC g3
        where s: "RuleSet_from_list_in_place (registry_new_plugin registry)
            (\<lambda>p. cls_is_rule (plugin_cls p)) (\<lambda>h a. json_dumps (plain (h a))) md5_hexdigest
            ruledata g1 hB = (r3, hC, g3)"
        by (cases "RuleSet_from_list_in_place (registry_new_plugin registry)
            (\<lambda>p. cls_is_rule (plugin_cls p)) (\<lambda>h a. json_dumps (plain (h a))) md5_hexdigest
            ruledata g1 hB") auto
      from Cons.IH [OF di pB s]
      have v: "RuleSet_from_list registry json_dumps md5_hexdigest
            (map (\<lambda>a. plain (hB a)) ruledata) g1 =
          (r3, map (\<lambda>a. plain (hC a)) ruledata, g3)"
        and pC: "\<forall>b \<in> set ruledata. plain_object (hC b)"
        by simp_all
      have keep: "hC a = hB a"
        using s na by (rule RuleSet_from_list_in_place_outside)
      from i None f Inr s Cons.prems(3) have h1: "h1 = hC" and g: "rgen1 = g3"
        and res: "res = (case r3 of Inl e \<Rightarrow> Inl e | Inr lst \<Rightarrow> Inr (p # lst))"
        by (auto split: sum.splits)
      from iv(1) fv(1) None Inr v restB keep
      have "RuleSet_from_list registry json_dumps md5_hexdigest
            (map (\<lambda>a. plain (h a)) (a # ruledata)) rgen =
          (res, map (\<lambda>a. plain (hC a)) (a # ruledata), g3)"
        unfolding res by (auto split: sum.splits)
      moreover have "plain_object (hC a)"
        using keep fv(2) by simp
      ultimately show ?thesis
        using h1 g pC by simp
    qed
  qed
qed

lemma RuleTree_from_list_in_place_values:
  "distinct (concat ruledefs) \<Longrightarrow> \<forall>a \<in> set (concat ruledefs). plain_object (h a) \<Longrightarrow>
   RuleTree_from_list_in_place (registry_new_plugin registry) (\<lambda>p. cls_is_rule (plugin_cls p))
     (\<lambda>h a. json_dumps (plain (h a))) md5_hexdigest ruledefs rgen h = (res, h1, rgen1) \<Longrightarrow>
   RuleTree_from_list registry json_dumps md5_hexdigest
       (map (map (\<lambda>a. plain (h a))) ruledefs) rgen =
     (res, map (map (\<lambda>a. plain (h1 a))) ruledefs, rgen1) \<and>
   (\<forall>a \<in> set (concat ruledefs). plain_object (h1 a))"
proof (induction ruledefs arbitrary: h rgen res h1 rgen1)
  case Nil
  then show ?case by simp
next
  case (Cons ent ruledefs)
  from Cons.prems(1) have de: "distinct ent" and di: "distinct (concat ruledefs)"
    and dj: "set ent \<inter> set (concat ruledefs) = {}"
    by simp_all
  from Cons.prems(2) have pe: "\<forall>a \<in> set ent. plain_object (h a)"
    by simp
  obtain r1 hA g1
    where s: "RuleSet_from_list_in_place (registry_new_plugin registry)
        (\<lambda>p. cls_is_rule (plugin_cls p)) (\<lambda>h a. json_dumps (plain (h a))) md5_hexdigest
        ent rgen h = (r1, hA, g1)"
    by (cases "RuleSet_from_list_in_place (registry_new_plugin registry)
        (\<lambda>p. cls_is_rule (plugin_cls p)) (\<lambda>h a. json_dumps (plain (h a))) md5_hexdigest
        ent rgen h") auto
  from RuleSet_from_list_in_place_values [OF de pe s]
  have v1: "RuleSet_from_list registry json_dumps md5_hexdigest (map (\<lambda>a. plain (h a)) ent) rgen =
      (r1, map (\<lambda>a. plain (hA a)) ent, g1)"
    and p1: "\<forall>a \<in> set ent. plain_object (hA a)"
    by simp_all
  have sameA: "hA b = h b" if "b \<in> set (concat ruledefs)" for b
  proof -
    from that dj have "b \<notin> set ent" by auto
    with s show ?thesis by (rule RuleSet_from_list_in_place_outside)
  qed
  have restA: "map (map (\<lambda>a. plain (hA a))) ruledefs = map (map (\<lambda>a. plain (h a))) ruledefs"
  proof (rule map_cong [OF refl])
    fix x assume "x \<in> set ruledefs"
    then have "\<forall>b \<in> set x. b \<in> set (concat ruledefs)" by auto
    then show "map (\<lambda>a. plain (hA a)) x = map (\<lambda>a. plain (h a)) x"
      by (intro map_cong [OF refl]) (simp add: sameA)
  qed
  have pA: "\<forall>b \<in> set (concat ruledefs). plain_object (hA b)"
  proof
    fix b assume b: "b \<in> set (concat ruledefs)"
    with Cons.prems(2) have "plain_object (h b)" by simp
    with b show "plain_object (hA b)" by (simp add: sameA)
  qed
  show ?case
  proof (cases r1)
    case (Inl e)
    with s Cons.prems(3) have "res = Inl e" and "h1 = hA" and "rgen1 = g1"
      by simp_all
    with v1 p1 Inl restA pA show ?thesis
      by auto
  next
    case (Inr rset)
    obtain r2 hB g2
      where r: "RuleTree_from_list_in_place (registry_new_plugin registry)
          (\<lambda>p. cls_is_rule (plugin_cls p)) (\<lambda>h a. json_dumps (plain (h a))) md5_hexdigest
          ruledefs g1 hA = (r2, hB, g2)"
      by (cases "RuleTree_from_list_in_place (registry_new_plugin registry)
          (\<lambda>p. cls_is_rule (plugin_cls p)) (\<lambda>h a. json_dumps (plain (h a))) md5_hexdigest
          ruledefs g1 hA") auto
    from Cons.IH [OF di pA r]
    have v2: "RuleTree_from_list registry json_dumps md5_hexdigest
          (map (map (\<lambda>a. plain (hA a))) ruledefs) g1 =
        (r2, map (map (\<lambda>a. plain (hB a))) ruledefs, g2)"
      and p2: "\<forall>a \<in> set (concat ruledefs). plain_object (hB a)"
      by simp_all
    have keep: "hB b = hA b" if "b \<in> set ent" for b
    proof -
      from that dj have "b \<notin> set (concat ruledefs)" by auto
      with r show ?thesis by (rule RuleTree_from_list_in_place_outside)
    qed
    have head: "map (\<lambda>a. plain (hB a)) ent = map (\<lambda>a. plain (hA a)) ent"
      by (rule map_cong [OF refl]) (simp add: keep)
    from s Inr r Cons.prems(3) have h1: "h1 = hB" and g: "rgen1 = g2"
      and res: "res = (case r2 of Inl e \<Rightarrow> Inl e | Inr ini \<Rightarrow> Inr (rset # ini))"
      by (auto split: sum.splits)
    from v1 Inr v2 restA head
    have "RuleTree_from_list registry json_dumps md5_hexdigest
          (map (map (\<lambda>a. plain (h a))) (ent # ruledefs)) rgen =
        (res, map (map (\<lambda>a. plain (hB a))) (ent # ruledefs), g2)"
      unfolding res by (auto split: sum.splits)
    moreover have "\<forall>a \<in> set ent. plain_object (hB a)"
      using p1 keep by simp
    ultimately show ?thesis
      using h1 g p2 by auto
  qed
qed

lemma from_dict_loop_in_place_values:
  "distinct (addresses_of info) \<Longrightarrow> \<forall>a \<in> set (addresses_of info). plain_object (h a) \<Longrightarrow>
   from_dict_loop_in_place (registry_new_plugin registry) (\<lambda>p. cls_is_rule (plugin_cls p))
     (\<lambda>h a. json_dumps (plain (h a))) md5_hexdigest info rgen rmap h = (res, h1) \<Longrightarrow>
   from_dict_loop registry json_dumps md5_hexdigest (values_of h info) rgen rmap =
     (res, values_of h1 info)"
proof (induction info arbitrary: h rgen rmap res h1)
  case Nil
  then show ?case by (simp add: values_of_def)
next
  case (Cons item info)
  obtain rtype treedef where item: "item = (rtype, treedef)" by (cases item)
  have a: "addresses_of (item # info) = concat treedef @ addresses_of info"
    by (simp add: addresses_of_def item)
  from Cons.prems(1) have de: "distinct (concat treedef)" and di: "distinct (addresses_of info)"
    and dj: "set (concat treedef) \<inter> set (addresses_of info) = {}"
    unfolding a by simp_all
  from Cons.prems(2) have pe: "\<forall>a \<in> set (concat treedef). plain_object (h a)"
    unfolding a by simp
  have vc: "values_of h' (item # info) =
      (rtype, map (map (\<lambda>a. plain (h' a))) treedef) # values_of h' info" for h'
    by (simp add: values_of_def item)
  show ?case
  proof (cases "RequestType_of rtype")
    case (Inl e)
    with item Cons.prems(3) have "res = Inl e" and "h1 = h"
      by simp_all
    with Inl show ?thesis
      by (simp add: vc)
  next
    case (Inr rt)
    obtain r1 hA g1
      where t: "RuleTree_from_list_in_place (registry_new_plugin registry)
          (\<lambda>p. cls_is_rule (plugin_cls p)) (\<lambda>h a. json_dumps (plain (h a))) md5_hexdigest
          treedef rgen h = (r1, hA, g1)"
      by (cases "RuleTree_from_list_in_place (registry_new_plugin registry)
          (\<lambda>p. cls_is_rule (plugin_cls p)) (\<lambda>h a. json_dumps (plain (h a))) md5_hexdigest
          treedef rgen h") auto
    from RuleTree_from_list_in_place_values [OF de pe t]
    have v1: "RuleTree_from_list registry json_dumps md5_hexdigest
          (map (map (\<lambda>a. plain (h a))) treedef) rgen =
        (r1, map (map (\<lambda>a. plain (hA a))) treedef, g1)"
      by simp
    have sameA: "hA b = h b" if "b \<in> set (addresses_of info)" for b
    proof -
      from that dj have "b \<notin> set (concat treedef)" by auto
      with t show ?thesis by (rule RuleTree_from_list_in_place_outside)
    qed
    have restA: "values_of hA info = values_of h info"
      unfolding values_of_def
    proof (rule map_cong [OF refl])
      fix x assume x: "x \<in> set info"
      obtain rt1 td where xe: "x = (rt1, td)" by (cases x)
      have "map (map (\<lambda>a. plain (hA a))) td = map (map (\<lambda>a. plain (h a))) td"
      proof (rule map_cong [OF refl])
        fix y assume "y \<in> set td"
        with x xe have "\<forall>b \<in> set y. b \<in> set (addresses_of info)"
          by (force simp: addresses_of_def)
        then show "map (\<lambda>a. plain (hA a)) y = map (\<lambda>a. plain (h a)) y"
          by (intro map_cong [OF refl]) (simp add: sameA)
      qed
      then show "(case x of (rtype, treedef) \<Rightarrow> (rtype, map (map (\<lambda>a. plain (hA a))) treedef)) =
          (case x of (rtype, treedef) \<Rightarrow> (rtype, map (map (\<lambda>a. plain (h a))) treedef))"
        by (simp add: xe)
    qed
    show ?thesis
    proof (cases r1)
      case (Inl e)
      with item \<open>RequestType_of rtype = Inr rt\<close> t Cons.prems(3) have "res = Inl e" and "h1 = hA"
        by simp_all
      with \<open>RequestType_of rtype = Inr rt\<close> v1 Inl restA show ?thesis
        by (simp add: vc)
    next
      case (Inr tree)
      have pA: "\<forall>b \<in> set (addresses_of info). plain_object (hA b)"
      proof
        fix b assume b: "b \<in> set (addresses_of info)"
        with Cons.prems(2) have "plain_object (h b)" unfolding a by simp
        with b show "plain_object (hA b)" by (simp add: sameA)
      qed
      from item \<open>RequestType_of rtype = Inr rt\<close> t Inr Cons.prems(3)
      have r: "from_dict_loop_in_place (registry_new_plugin registry)
          (\<lambda>p. cls_is_rule (plugin_cls p)) (\<lambda>h a. json_dumps (plain (h a))) md5_hexdigest
          info g1 (AList.update rt tree rmap) hA = (res, h1)"
        by simp
      from Cons.IH [OF di pA r]
      have v2: "from_dict_loop registry json_dumps md5_hexdigest (values_of hA info) g1
          (AList.update rt tree rmap) = (res, values_of h1 info)" .
      have keep: "h1 b = hA b" if "b \<in> set (concat treedef)" for b
      proof -
        from that dj have "b \<notin> set (addresses_of info)" by auto
        with r show ?thesis by (rule from_dict_loop_in_place_outside)
      qed
      have head: "map (map (\<lambda>a. plain (h1 a))) treedef = map (map (\<lambda>a. plain (hA a))) treedef"
      proof (rule map_cong [OF refl])
        fix y assume "y \<in> set treedef"
        then have "\<forall>b \<in> set y. b \<in> set (concat treedef)" by auto
        then show "map (\<lambda>a. plain (h1 a)) y = map (\<lambda>a. plain (hA a)) y"
          by (intro map_cong [OF refl]) (simp add: keep)
      qed
      from \<open>RequestType_of rtype = Inr rt\<close> v1 Inr v2 restA head show ?thesis
        by (simp add: vc)
    qed
  qed
qed

text \<open>
  On a store where the entries of the policy are separate dict objects with plain
  values, the build in place computes what the build on values computes: the same
  engine or exception, and the same entries afterwards.
\<close>

lemma RuleEngine_from_dict_in_place_values:
  assumes "distinct (addresses_of info)"
    and "\<forall>a \<in> set (addresses_of info). plain_object (h a)"
    and "RuleEngine_from_dict_in_place (registry_new_plugin registry)
      (\<lambda>p. cls_is_rule (plugin_cls p)) (\<lambda>h a. json_dumps (plain (h a))) md5_hexdigest h info =
      (res, h1)"
  shows "RuleEngine_from_dict registry json_dumps md5_hexdigest (values_of h info) =
      (map_sum id (\<lambda>rmap. \<lparr>rule_map = rmap\<rparr>) res, values_of h1 info)"
proof -
  from assms(3)
  have "from_dict_loop_in_place (registry_new_plugin registry) (\<lambda>p. cls_is_rule (plugin_cls p))
      (\<lambda>h a. json_dumps (plain (h a))) md5_hexdigest info RuleIdGenerator_init [] h = (res, h1)"
    by (simp add: RuleEngine_from_dict_in_place_def)
  from from_dict_loop_in_place_values [OF assms(1,2) this]
  show ?thesis
    by (cases res) (simp_all add: RuleEngine_from_dict_def)
qed

section \<open>Building, saving and building again\<close>

lemma hexdigest_nonempty:
  assumes "hexdigest md5_hexdigest"
  shows "md5_hexdigest d \<noteq> []"
proof -
  from assms have "length (md5_hexdigest d) = 32"
    unfolding hexdigest_def by blast
  then show ?thesis by auto
qed

lemma hexdigest_sample: "hexdigest md5_hexdigest0"
  unfolding hexdigest_def md5_hexdigest0_def md5_table_def
  by (auto split: option.splits if_splits)

lemma inject_rule_id_truthy:
  assumes hex: "hexdigest md5_hexdigest"
    and inj: "inject_rule_id json_dumps md5_hexdigest g ent = (None, g1, ent1)"
  shows "truthy (dict_get ent1 ''rule_id'') \<and> hashable (dict_get ent1 ''rule_id'')"
proof (cases "truthy (dict_get ent ''rule_id'')")
  case True
  with inj show ?thesis
    by (auto simp: inject_rule_id_def Let_def split: if_splits)
next
  case False
  from False inj obtain d where d: "json_dumps ent = Inr d"
    by (cases "json_dumps ent") (auto simp: inject_rule_id_def Let_def)
  have "md5_hexdigest d \<noteq> []"
    using hex by (rule hexdigest_nonempty)
  with False inj d show ?thesis
    by (auto simp: inject_rule_id_def Let_def dict_get_def)
qed

lemma get_by_name_name:
  assumes "get_by_name registry pname = Inr c"
  shows "get_by_name registry (PStr (cls_name c)) = Inr c"
proof -
  from assms obtain n where n: "pname = PStr n"
    and f: "find (\<lambda>c. cls_name c = n) registry = Some c"
    by (auto simp: get_by_name_def split: pyval.splits option.splits)
  from f have "cls_name c = n"
    by (auto simp: find_Some_iff)
  with assms n show ?thesis by simp
qed

lemma RulePlugin_from_dict_well_built:
  assumes f: "RulePlugin_from_dict registry ent1 = (Inr p, ent2)"
    and t: "truthy (dict_get ent1 ''rule_id'') \<and> hashable (dict_get ent1 ''rule_id'')"
  shows "well_built registry p"
proof -
  from f obtain pname c where pn: "ent1 ''rule'' = Some pname"
    and g: "get_by_name registry pname = Inr c"
    and i: "cls_init c (ent1(''rule'' := None)) = None"
    and r: "cls_is_rule c"
    and p: "p = \<lparr>plugin_cls = c, args = ent1(''rule'' := None)\<rparr>"
    by (auto simp: RulePlugin_from_dict_def Let_def split: option.splits sum.splits if_splits)
  from g have "get_by_name registry (PStr (cls_name c)) = Inr c"
    by (rule get_by_name_name)
  moreover have "dict_get (ent1(''rule'' := None)) ''rule_id'' = dict_get ent1 ''rule_id''"
    by (simp add: dict_get_def)
  ultimately show ?thesis
    using i r p t by (simp add: well_built_def name_def)
qed

lemma well_built_rebuild:
  assumes w: "well_built registry p"
  shows "\<exists>g1. inject_rule_id json_dumps md5_hexdigest g (RulePlugin_to_dict p) =
      (None, g1, RulePlugin_to_dict p)"
    and "RulePlugin_from_dict registry (RulePlugin_to_dict p) = (Inr p, args p)"
proof -
  have r: "dict_get (RulePlugin_to_dict p) ''rule_id'' = dict_get (args p) ''rule_id''"
    by (simp add: RulePlugin_to_dict_def dict_get_def)
  with w show "\<exists>g1. inject_rule_id json_dumps md5_hexdigest g (RulePlugin_to_dict p) =
      (None, g1, RulePlugin_to_dict p)"
    by (simp add: inject_rule_id_def Let_def well_built_def)
  from w have "(RulePlugin_to_dict p)(''rule'' := None) = args p"
    by (auto simp: RulePlugin_to_dict_def well_built_def)
  with w show "RulePlugin_from_dict registry (RulePlugin_to_dict p) = (Inr p, args p)"
    by (simp add: RulePlugin_from_dict_def Let_def well_built_def RulePlugin_to_dict_def)
qed

lemma RuleSet_rebuild:
  "\<forall>p \<in> set ps. well_built registry p \<Longrightarrow>
   \<exists>g1. RuleSet_from_list registry json_dumps md5_hexdigest (RuleSet_to_list ps) g =
     (Inr ps, map args ps, g1)"
proof (induction ps arbitrary: g)
  case Nil
  then show ?case by (simp add: RuleSet_to_list_def)
next
  case (Cons p ps)
  then have w: "well_built registry p" by simp
  from well_built_rebuild(1) [OF w] obtain g1
    where i: "inject_rule_id json_dumps md5_hexdigest g (RulePlugin_to_dict p) =
      (None, g1, RulePlugin_to_dict p)"
    by blast
  from Cons obtain g2
    where r: "RuleSet_from_list registry json_dumps md5_hexdigest (RuleSet_to_list ps) g1 =
      (Inr ps, map args ps, g2)"
    by fastforce
  from i r well_built_rebuild(2) [OF w] show ?case
    by (simp add: RuleSet_to_list_def)
qed

lemma RuleTree_rebuild:
  "\<forall>rset \<in> set tree. \<forall>p \<in> set rset. well_built registry p \<Longrightarrow>
   \<exists>g1. RuleTree_from_list registry json_dumps md5_hexdigest (RuleTree_to_list tree) g =
     (Inr tree, map (map args) tree, g1)"
proof (induction tree arbitrary: g)
  case Nil
  then show ?case by (simp add: RuleTree_to_list_def)
next
  case (Cons rset tree)
  then have "\<forall>p \<in> set rset. well_built registry p" by simp
  then obtain g1
    where s: "RuleSet_from_list registry json_dumps md5_hexdigest (RuleSet_to_list rset) g =
      (Inr rset, map args rset, g1)"
    using RuleSet_rebuild by blast
  from Cons obtain g2
    where r: "RuleTree_from_list registry json_dumps md5_hexdigest (RuleTree_to_list tree) g1 =
      (Inr tree, map (map args) tree, g2)"
    by fastforce
  from s r show ?case
    by (simp add: RuleTree_to_list_def)
qed

lemma RuleSet_from_list_well_built:
  assumes hex: "hexdigest md5_hexdigest"
  shows "RuleSet_from_list registry json_dumps md5_hexdigest ruledata rgen = (Inr lst, ents, rgen1)
   \<Longrightarrow> \<forall>p \<in> set lst. well_built registry p"
proof (induction ruledata arbitrary: rgen lst ents)
  case Nil
  then show ?case by simp
next
  case (Cons ent ruledata)
  from Cons.prems obtain g1 ent1 p ent2 lst1 ents1
    where i: "inject_rule_id json_dumps md5_hexdigest rgen ent = (None, g1, ent1)"
      and f: "RulePlugin_from_dict registry ent1 = (Inr p, ent2)"
      and r: "RuleSet_from_list registry json_dumps md5_hexdigest ruledata g1 =
          (Inr lst1, ents1, rgen1)"
      and e: "lst = p # lst1"
    by (auto split: prod.splits option.splits sum.splits)
  from f inject_rule_id_truthy [OF hex i] have "well_built registry p"
    by (rule RulePlugin_from_dict_well_built)
  moreover from r have "\<forall>p \<in> set lst1. well_built registry p" by (rule Cons.IH)
  ultimately show ?case using e by simp
qed

lemma RuleTree_from_list_well_built:
  assumes hex: "hexdigest md5_hexdigest"
  shows "RuleTree_from_list registry json_dumps md5_hexdigest ruledefs rgen = (Inr ini, ents, rgen1)
   \<Longrightarrow> \<forall>rset \<in> set ini. \<forall>p \<in> set rset. well_built registry p"
proof (induction ruledefs arbitrary: rgen ini ents)
  case Nil
  then show ?case by simp
next
  case (Cons ent ruledefs)
  from Cons.prems obtain rset ent1 g1 ini1 ents1
    where s: "RuleSet_from_list registry json_dumps md5_hexdigest ent rgen = (Inr rset, ent1, g1)"
      and r: "RuleTree_from_list registry json_dumps md5_hexdigest ruledefs g1 =
          (Inr ini1, ents1, rgen1)"
      and e: "ini = rset # ini1"
    by (auto split: prod.splits sum.splits)
  from hex s have "\<forall>p \<in> set rset. well_built registry p"
    by (rule RuleSet_from_list_well_built)
  moreover from r have "\<forall>rset \<in> set ini1. \<forall>p \<in> set rset. well_built registry p"
    by (rule Cons.IH)
  ultimately show ?case using e by simp
qed

lemma update_fresh: "k \<notin> fst ` set al \<Longrightarrow> AList.update k v al = al @ [(k, v)]"
  by (induction al) auto

lemma set_update_subset: "set (AList.update k v al) \<subseteq> insert (k, v) (set al)"
  by (induction al) auto

lemma RequestType_of_value: "RequestType_of (RequestType_value rt) = Inr rt"
  by (cases rt) (simp_all add: RequestType_of_def RequestType_value_def)

lemma from_dict_loop_well_built:
  assumes hex: "hexdigest md5_hexdigest"
  shows "from_dict_loop registry json_dumps md5_hexdigest info rgen rmap = (Inr rmap1, info1)
   \<Longrightarrow> distinct (map fst rmap)
   \<Longrightarrow> \<forall>tree \<in> snd ` set rmap. \<forall>rset \<in> set tree. \<forall>p \<in> set rset. well_built registry p
   \<Longrightarrow> distinct (map fst rmap1) \<and>
       (\<forall>tree \<in> snd ` set rmap1. \<forall>rset \<in> set tree. \<forall>p \<in> set rset. well_built registry p)"
proof (induction info arbitrary: rgen rmap info1)
  case Nil
  then show ?case by simp
next
  case (Cons item info)
  obtain rtype treedef where item: "item = (rtype, treedef)" by (cases item)
  from Cons.prems(1) item obtain rt tree treedef1 g1 rest
    where t: "RuleTree_from_list registry json_dumps md5_hexdigest treedef rgen =
          (Inr tree, treedef1, g1)"
      and r: "from_dict_loop registry json_dumps md5_hexdigest info g1
          (AList.update rt tree rmap) = (Inr rmap1, rest)"
    by (auto split: prod.splits sum.splits)
  from hex t have wt: "\<forall>rset \<in> set tree. \<forall>p \<in> set rset. well_built registry p"
    by (rule RuleTree_from_list_well_built)
  have "distinct (map fst (AList.update rt tree rmap))"
    using Cons.prems(2) by (rule distinct_update)
  moreover have "\<forall>tree \<in> snd ` set (AList.update rt tree rmap).
      \<forall>rset \<in> set tree. \<forall>p \<in> set rset. well_built registry p"
  proof
    fix t' assume "t' \<in> snd ` set (AList.update rt tree rmap)"
    then have "t' = tree \<or> t' \<in> snd ` set rmap"
      using set_update_subset [of rt tree rmap] by force
    with wt Cons.prems(3) show "\<forall>rset \<in> set t'. \<forall>p \<in> set rset. well_built registry p"
      by blast
  qed
  ultimately show ?case
    using r Cons.IH by blast
qed

lemma from_dict_loop_rebuild:
  "distinct (map fst m)
   \<Longrightarrow> fst ` set m \<inter> fst ` set rmap = {}
   \<Longrightarrow> \<forall>tree \<in> snd ` set m. \<forall>rset \<in> set tree. \<forall>p \<in> set rset. well_built registry p
   \<Longrightarrow> \<exists>info2. from_dict_loop registry json_dumps md5_hexdigest
         (map (\<lambda>(req, ent). (RequestType_value req, RuleTree_to_list ent)) m) rgen rmap =
       (Inr (rmap @ m), info2)"
proof (induction m arbitrary: rgen rmap)
  case Nil
  then show ?case by simp
next
  case (Cons item m)
  obtain rt tree where item: "item = (rt, tree)" by (cases item)
  from Cons.prems(3) item have "\<forall>rset \<in> set tree. \<forall>p \<in> set rset. well_built registry p"
    by simp
  then obtain g1
    where t: "RuleTree_from_list registry json_dumps md5_hexdigest (RuleTree_to_list tree) rgen =
      (Inr tree, map (map args) tree, g1)"
    using RuleTree_rebuild by blast
  from Cons.prems(2) item have "rt \<notin> fst ` set rmap" by auto
  then have u: "AList.update rt tree rmap = rmap @ [(rt, tree)]"
    by (rule update_fresh)
  have "distinct (map fst m)"
    using Cons.prems(1) by simp
  moreover have "fst ` set m \<inter> fst ` set (rmap @ [(rt, tree)]) = {}"
    using Cons.prems(1,2) item by auto
  moreover have "\<forall>tree \<in> snd ` set m. \<forall>rset \<in> set tree. \<forall>p \<in> set rset. well_built registry p"
    using Cons.prems(3) by simp
  ultimately obtain info2
    where "from_dict_loop registry json_dumps md5_hexdigest
         (map (\<lambda>(req, ent). (RequestType_value req, RuleTree_to_list ent)) m) g1
         (rmap @ [(rt, tree)]) = (Inr ((rmap @ [(rt, tree)]) @ m), info2)"
    using Cons.IH by blast
  with t u item show ?case
    by (simp add: RequestType_of_value)
qed

text \<open>
  Claim C9. When a configuration builds (the digests being MD5 hex digests), the
  engine's serialization builds too, and the engine it gives is the engine itself: for
  each request type the same tree of the same plugins with the same arguments, among
  them every \<open>rule_id\<close>, the generated ones included. So both engines decide every
  request alike and serialize alike.
\<close>

theorem RuleEngine_round_trip:
  "hexdigest md5_hexdigest \<and>
   RuleEngine_from_dict registry json_dumps md5_hexdigest info = (Inr eng, info1) \<longrightarrow>
     (\<exists>eng2 info2.
        RuleEngine_from_dict registry json_dumps md5_hexdigest (RuleEngine_to_dict eng) =
          (Inr eng2, info2) \<and>
        eng2 = eng \<and>
        (\<forall>logger request s. RuleEngine_approve_request logger eng2 request s =
           RuleEngine_approve_request logger eng request s) \<and>
        RuleEngine_to_dict eng2 = RuleEngine_to_dict eng)"
proof
  assume a: "hexdigest md5_hexdigest \<and>
    RuleEngine_from_dict registry json_dumps md5_hexdigest info = (Inr eng, info1)"
  then have hex: "hexdigest md5_hexdigest" by simp
  from a have l: "from_dict_loop registry json_dumps md5_hexdigest info
      RuleIdGenerator_init [] = (Inr (rule_map eng), info1)"
    by (auto simp: RuleEngine_from_dict_def split: prod.splits sum.splits)
  from from_dict_loop_well_built [OF hex l]
  have d: "distinct (map fst (rule_map eng))"
    and w: "\<forall>tree \<in> snd ` set (rule_map eng). \<forall>rset \<in> set tree. \<forall>p \<in> set rset.
      well_built registry p"
    by simp_all
  from d w obtain info2
    where "from_dict_loop registry json_dumps md5_hexdigest
         (map (\<lambda>(req, ent). (RequestType_value req, RuleTree_to_list ent)) (rule_map eng))
         RuleIdGenerator_init [] = (Inr ([] @ rule_map eng), info2)"
    using from_dict_loop_rebuild [of "rule_map eng" "[]" registry json_dumps md5_hexdigest
        RuleIdGenerator_init]
    by auto
  then have "RuleEngine_from_dict registry json_dumps md5_hexdigest (RuleEngine_to_dict eng) =
      (Inr eng, info2)"
    by (simp add: RuleEngine_from_dict_def RuleEngine_to_dict_def)
  then show "\<exists>eng2 info2.
        RuleEngine_from_dict registry json_dumps md5_hexdigest (RuleEngine_to_dict eng) =
          (Inr eng2, info2) \<and>
        eng2 = eng \<and>
        (\<forall>logger request s. RuleEngine_approve_request logger eng2 request s =
           RuleEngine_approve_request logger eng request s) \<and>
        RuleEngine_to_dict eng2 = RuleEngine_to_dict eng"
    by simp
qed

text \<open>
  The theorem at a policy with two equal entries under \<open>decrypt\<close> and an entry with
  its own identifier under \<open>search\<close>: the engine saves with the identifiers
  \<open>9c39...3636\<close>, \<open>9c39...3636.2\<close> and \<open>front-door\<close>, and building from what it
  saved gives the engine back.
\<close>

theorem RuleEngine_round_trip_witness:
  "(case RuleEngine_from_dict registry0 json_dumps0 md5_hexdigest0
       [(''decrypt'', [[yes_entry, yes_entry]]),
        (''search'', [[yes_entry(''rule_id'' \<mapsto> PStr ''front-door'')], []])] of
      (Inl e, info1) \<Rightarrow> False
    | (Inr eng, info1) \<Rightarrow>
        fst (RuleEngine_from_dict registry0 json_dumps0 md5_hexdigest0 (RuleEngine_to_dict eng)) =
          Inr eng \<and>
        map (\<lambda>(rtype, treedef). (rtype, map (map (\<lambda>e. (e ''rule'', e ''rule_id''))) treedef))
          (RuleEngine_to_dict eng) =
          [(''decrypt'',
            [[(Some (PStr ''yes''), Some (PStr ''9c391654df0fed88e67a23c485403636'')),
              (Some (PStr ''yes''), Some (PStr ''9c391654df0fed88e67a23c485403636.2''))]]),
           (''search'', [[(Some (PStr ''yes''), Some (PStr ''front-door''))], []])])"
proof -
  have ev: "map_sum id
      (\<lambda>eng.
        map (\<lambda>(rtype, treedef). (rtype, map (map (\<lambda>e. (e ''rule'', e ''rule_id''))) treedef))
          (RuleEngine_to_dict eng))
      (fst (RuleEngine_from_dict registry0 json_dumps0 md5_hexdigest0
        [(''decrypt'', [[yes_entry, yes_entry]]),
         (''search'', [[yes_entry(''rule_id'' \<mapsto> PStr ''front-door'')], []])])) =
      Inr [(''decrypt'',
            [[(Some (PStr ''yes''), Some (PStr ''9c391654df0fed88e67a23c485403636'')),
              (Some (PStr ''yes''), Some (PStr ''9c391654df0fed88e67a23c485403636.2''))]]),
           (''search'', [[(Some (PStr ''yes''), Some (PStr ''front-door''))], []])]"
    by (simp add: build_defs sample_defs str_nat.simps digit_char_def RuleEngine_to_dict_def
        RuleTree_to_list_def RuleSet_to_list_def RulePlugin_to_dict_def RequestType_value_def
        name_def)
  obtain res info1 where b: "RuleEngine_from_dict registry0 json_dumps0 md5_hexdigest0
       [(''decrypt'', [[yes_entry, yes_entry]]),
        (''search'', [[yes_entry(''rule_id'' \<mapsto> PStr ''front-door'')], []])] = (res, info1)"
    by (cases "RuleEngine_from_dict registry0 json_dumps0 md5_hexdigest0
       [(''decrypt'', [[yes_entry, yes_entry]]),
        (''search'', [[yes_entry(''rule_id'' \<mapsto> PStr ''front-door'')], []])]")
  show ?thesis
  proof (cases res)
    case (Inl e)
    with ev b show ?thesis by simp
  next
    case (Inr eng)
    from Inr b hexdigest_sample
      RuleEngine_round_trip [where md5_hexdigest = md5_hexdigest0 and registry = registry0
        and json_dumps = json_dumps0 and eng = eng and ?info1.0 = info1
        and info = "[(''decrypt'', [[yes_entry, yes_entry]]),
          (''search'', [[yes_entry(''rule_id'' \<mapsto> PStr ''front-door'')], []])]"]
    have "fst (RuleEngine_from_dict registry0 json_dumps0 md5_hexdigest0 (RuleEngine_to_dict eng)) =
          Inr eng"
      by auto
    with Inr b ev show ?thesis by simp
  qed
qed

end
